theory Spec2Isabelle
  imports
    Complex_Main
    "HOL-Library.Multiset"
    "HOL-Library.Sublist"
    "HOL-Library.Char_ord"
    "HOL-Library.List_Lexorder"
    "HOL-Library.Product_Lexorder"
begin

section \<open>The tables of the procurement pipeline\<close>

text \<open>
  The pipeline of \<^verbatim>\<open>procurement_pipeline_dag.py\<close> is a chain of tasks, each of which sends
  SQL text to the query engine and looks at the text that comes back. A table is modelled
  as the list of its rows, a row as a record of the columns that the queries of the DAG
  read. Columns are taken as \<^verbatim>\<open>NOT NULL\<close> and \<^verbatim>\<open>VARCHAR\<close> as \<open>string\<close>, ordered by
  character code. Sums and net demand are \<^verbatim>\<open>BIGINT\<close> in the engine and unbounded here;
  the one cast to \<^verbatim>\<open>INTEGER\<close>, in the supplier-order query, is checked for its range.
\<close>

record product =
  p_product_id :: int
  p_sku :: string
  p_product_name :: string
  p_is_active :: bool

record supplier =
  s_supplier_id :: int
  s_supplier_code :: string
  s_supplier_name :: string
  s_is_active :: bool

record supplier_product =
  sp_supplier_id :: int
  sp_product_id :: int
  sp_is_primary_supplier :: bool

record replenishment_rule =
  r_product_id :: int
  r_safety_stock :: int
  r_min_order_quantity :: int
  r_pack_size :: int
  r_case_size :: int
  r_max_order_quantity :: int
  r_reorder_point :: int

text \<open>The two external tables over the day's raw files (\<^verbatim>\<open>create_hive_tables\<close>).\<close>

record order_row =
  o_order_id :: string
  o_pos_store_id :: string
  o_sku :: string
  o_quantity :: int

record stock_row =
  st_warehouse_code :: string
  st_sku :: string
  st_available_stock :: int
  st_reserved_stock :: int

text \<open>The intermediate table \<^verbatim>\<open>hive.default.net_demand\<close> and the rows of the output file.\<close>

record net_demand_row =
  nd_sku :: string
  nd_product_name :: string
  nd_aggregated_orders :: int
  nd_available_stock :: int
  nd_reserved_stock :: int
  nd_safety_stock :: int
  nd_net_demand :: int
  nd_case_size :: int
  nd_min_order_quantity :: int

record supplier_order_row =
  so_supplier_code :: string
  so_supplier_name :: string
  so_sku :: string
  so_product_name :: string
  so_net_demand :: int
  so_case_size :: int
  so_order_quantity :: int

section \<open>The SQL operators the queries use\<close>

text \<open>
  \<^verbatim>\<open>LEFT JOIN t ON c\<close>: the rows of \<open>t\<close> that satisfy the condition, or one row of
  NULLs when there is none.
\<close>

definition left_join :: "('b \<Rightarrow> bool) \<Rightarrow> 'b list \<Rightarrow> 'b option list" where
  "left_join on_cond t = (case filter on_cond t of [] \<Rightarrow> [None] | ms \<Rightarrow> map Some ms)"

text \<open>\<^verbatim>\<open>COALESCE(x, d)\<close> on a column of the possibly missing row.\<close>

definition coalesce :: "'b option \<Rightarrow> ('b \<Rightarrow> int) \<Rightarrow> int \<Rightarrow> int" where
  "coalesce row col d = (case row of None \<Rightarrow> d | Some x \<Rightarrow> col x)"

definition greatest :: "int \<Rightarrow> int \<Rightarrow> int" where
  "greatest a b = (if a < b then b else a)"

text \<open>
  \<^verbatim>\<open>SELECT sku, SUM(quantity) as total_quantity FROM hive.default.orders GROUP BY sku\<close>
  and the same over the stock table: one row per distinct key.
\<close>

definition orders_by_sku :: "order_row list \<Rightarrow> (string \<times> int) list" where
  "orders_by_sku os =
     map (\<lambda>k. (k, sum_list (map o_quantity (filter (\<lambda>x. o_sku x = k) os))))
       (remdups (map o_sku os))"

definition stock_by_sku :: "stock_row list \<Rightarrow> (string \<times> int \<times> int) list" where
  "stock_by_sku sts =
     map (\<lambda>k. (k, sum_list (map st_available_stock (filter (\<lambda>s. st_sku s = k) sts)),
                   sum_list (map st_reserved_stock (filter (\<lambda>s. st_sku s = k) sts))))
       (remdups (map st_sku sts))"

section \<open>Task 5: net demand\<close>

text \<open>
  The \<^verbatim>\<open>CREATE TABLE hive.default.net_demand AS SELECT ...\<close> of
  \<^verbatim>\<open>calculate_net_demand\<close>: products joined with their rules, left-joined with the two
  aggregates, filtered on \<^verbatim>\<open>p.is_active = TRUE\<close>.
\<close>

definition net_demand_query ::
  "product list \<Rightarrow> replenishment_rule list \<Rightarrow> order_row list \<Rightarrow> stock_row list
     \<Rightarrow> net_demand_row list" where
  "net_demand_query ps rs os sts =
     [\<lparr>nd_sku = p_sku p,
       nd_product_name = p_product_name p,
       nd_aggregated_orders = coalesce o_agg snd 0,
       nd_available_stock = coalesce s_agg (fst \<circ> snd) 0,
       nd_reserved_stock = coalesce s_agg (snd \<circ> snd) 0,
       nd_safety_stock = r_safety_stock r,
       nd_net_demand =
         greatest
           (coalesce o_agg snd 0 + r_safety_stock r
             - (coalesce s_agg (fst \<circ> snd) 0 - coalesce s_agg (snd \<circ> snd) 0))
           0,
       nd_case_size = r_case_size r,
       nd_min_order_quantity = r_min_order_quantity r\<rparr>.
      p \<leftarrow> ps,
      r \<leftarrow> rs, p_product_id p = r_product_id r,
      o_agg \<leftarrow> left_join (\<lambda>row. p_sku p = fst row) (orders_by_sku os),
      s_agg \<leftarrow> left_join (\<lambda>row. p_sku p = fst row) (stock_by_sku sts),
      p_is_active p]"

text \<open>
  A task ends by returning or by raising \<^verbatim>\<open>Exception\<close>; the two \<^verbatim>\<open>raise\<close> statements
  of the tasks modelled here are the two errors.
\<close>

datatype task_error = Net_demand_calculation_failed | Supplier_order_generation_failed

datatype query_error = Division_by_zero | Out_of_range

text \<open>
  \<^verbatim>\<open>calculate_net_demand\<close> drops the table, creates it from the query and raises when the
  engine reports a failure. The query has no operator that can fail on a row, so the
  task returns with the table.
\<close>

definition calculate_net_demand ::
  "product list \<Rightarrow> replenishment_rule list \<Rightarrow> order_row list \<Rightarrow> stock_row list
     \<Rightarrow> task_error + net_demand_row list" where
  "calculate_net_demand ps rs os sts =
     (case (Inr (net_demand_query ps rs os sts) :: query_error + net_demand_row list) of
        Inl e \<Rightarrow> Inl Net_demand_calculation_failed
      | Inr t \<Rightarrow> Inr t)"

section \<open>Task 6: supplier orders\<close>

text \<open>
  \<^verbatim>\<open>CAST(CEIL(nd.net_demand * 1.0 / nd.case_size) * nd.case_size AS INTEGER)\<close>, in the
  arithmetic of the engine. The column \<^verbatim>\<open>net_demand\<close> is a \<^verbatim>\<open>BIGINT\<close> (a sum of
  integers), the literal \<^verbatim>\<open>1.0\<close> a \<^verbatim>\<open>DECIMAL(2,1)\<close> and the case size an
  \<^verbatim>\<open>INTEGER\<close>: the product is a decimal of scale 1, and so is the quotient, which is
  the exact quotient rounded to one decimal place, half away from zero. A decimal of
  scale 1 is given here by its unscaled value, ten times the number. Dividing by zero
  fails the query, and so does the cast of a value outside the 32-bit integers.
\<close>

definition decimal_of_bigint :: "int \<Rightarrow> int" where
  "decimal_of_bigint n = n * 10"

definition decimal_divide :: "int \<Rightarrow> int \<Rightarrow> query_error + int" where
  "decimal_divide a c =
     (if c = 0 then Inl Division_by_zero
      else Inr (sgn a * sgn c *
                 (\<bar>a\<bar> div \<bar>c\<bar> + (if \<bar>c\<bar> \<le> 2 * (\<bar>a\<bar> mod \<bar>c\<bar>) then 1 else 0))))"

definition decimal_ceil :: "int \<Rightarrow> int" where
  "decimal_ceil a = - ((- a) div 10)"

definition cast_integer :: "int \<Rightarrow> query_error + int" where
  "cast_integer v =
     (if - 2147483648 \<le> v \<and> v \<le> 2147483647 then Inr v else Inl Out_of_range)"

definition order_quantity :: "int \<Rightarrow> int \<Rightarrow> query_error + int" where
  "order_quantity net_demand case_size =
     (case decimal_divide (decimal_of_bigint net_demand) case_size of
        Inl e \<Rightarrow> Inl e
      | Inr d \<Rightarrow> cast_integer (decimal_ceil d * case_size))"

text \<open>
  The \<^verbatim>\<open>FROM ... JOIN ... WHERE\<close> part of the query of \<^verbatim>\<open>generate_supplier_orders\<close>:
  the net-demand table joined with products on the SKU, with the supplier links on the
  product, with the suppliers on the supplier, filtered on
  \<^verbatim>\<open>sp.is_primary_supplier = TRUE AND nd.net_demand > 0\<close>.
\<close>

definition supplier_order_joins ::
  "net_demand_row list \<Rightarrow> product list \<Rightarrow> supplier_product list \<Rightarrow> supplier list
     \<Rightarrow> (supplier \<times> net_demand_row) list" where
  "supplier_order_joins nd ps sps ss =
     [(s, n).
      n \<leftarrow> nd,
      p \<leftarrow> ps, nd_sku n = p_sku p,
      sp \<leftarrow> sps, p_product_id p = sp_product_id sp,
      s \<leftarrow> ss, sp_supplier_id sp = s_supplier_id s,
      sp_is_primary_supplier sp \<and> nd_net_demand n > 0]"

text \<open>The \<^verbatim>\<open>SELECT\<close> list, evaluated row by row; the first failing row fails the query.\<close>

definition supplier_order_line :: "supplier \<Rightarrow> net_demand_row \<Rightarrow> int \<Rightarrow> supplier_order_row" where
  "supplier_order_line s n q =
     \<lparr>so_supplier_code = s_supplier_code s,
      so_supplier_name = s_supplier_name s,
      so_sku = nd_sku n,
      so_product_name = nd_product_name n,
      so_net_demand = nd_net_demand n,
      so_case_size = nd_case_size n,
      so_order_quantity = q\<rparr>"

fun select_lines :: "(supplier \<times> net_demand_row) list \<Rightarrow> query_error + supplier_order_row list" where
  "select_lines [] = Inr []"
| "select_lines ((s, n) # rest) =
     (case order_quantity (nd_net_demand n) (nd_case_size n) of
        Inl e \<Rightarrow> Inl e
      | Inr q \<Rightarrow>
          (case select_lines rest of
             Inl e \<Rightarrow> Inl e
           | Inr out \<Rightarrow> Inr (supplier_order_line s n q # out)))"

text \<open>\<^verbatim>\<open>ORDER BY s.supplier_code, nd.sku\<close>\<close>

definition supplier_orders_query ::
  "net_demand_row list \<Rightarrow> product list \<Rightarrow> supplier_product list \<Rightarrow> supplier list
     \<Rightarrow> query_error + supplier_order_row list" where
  "supplier_orders_query nd ps sps ss =
     (case select_lines (supplier_order_joins nd ps sps ss) of
        Inl e \<Rightarrow> Inl e
      | Inr out \<Rightarrow> Inr (sort_key (\<lambda>l. (so_supplier_code l, so_sku l)) out))"

text \<open>
  \<^verbatim>\<open>generate_supplier_orders\<close> raises when the engine reports a failure and otherwise
  writes the rows it received to the output file.
\<close>

definition generate_supplier_orders ::
  "net_demand_row list \<Rightarrow> product list \<Rightarrow> supplier_product list \<Rightarrow> supplier list
     \<Rightarrow> task_error + supplier_order_row list" where
  "generate_supplier_orders nd ps sps ss =
     (case supplier_orders_query nd ps sps ss of
        Inl e \<Rightarrow> Inl Supplier_order_generation_failed
      | Inr out \<Rightarrow> Inr out)"

section \<open>Task 4: data-quality checks\<close>

text \<open>
  The checks read the text the command-line client prints: in batch mode one line per
  row, every field in double quotes, fields separated by commas, no header line.
\<close>

definition dquote :: char where
  "dquote = CHR 0x22"

definition newline :: char where
  "newline = CHR 0x0A"

definition digit_char :: "nat \<Rightarrow> char" where
  "digit_char d = char_of (48 + d)"

function show_nat :: "nat \<Rightarrow> string" where
  "show_nat n = (if n < 10 then [digit_char n] else show_nat (n div 10) @ [digit_char (n mod 10)])"
  by pat_completeness auto
termination
  by (relation "measure id") auto

definition show_int :: "int \<Rightarrow> string" where
  "show_int i = (if i < 0 then CHR ''-'' # show_nat (nat (- i)) else show_nat (nat i))"

fun csv_line :: "string list \<Rightarrow> string" where
  "csv_line [] = [newline]"
| "csv_line [f] = dquote # f @ [dquote, newline]"
| "csv_line (f # fs) = dquote # f @ [dquote, CHR '',''] @ csv_line fs"

definition csv_output :: "string list list \<Rightarrow> string" where
  "csv_output rows = concat (map csv_line rows)"

text \<open>
  \<^verbatim>\<open>SELECT COUNT(DISTINCT p.sku) FROM products p LEFT JOIN supplier_products sp
  ON p.product_id = sp.product_id WHERE sp.supplier_id IS NULL AND p.is_active = TRUE\<close>
\<close>

definition is_null :: "'b option \<Rightarrow> bool" where
  "is_null row = (case row of None \<Rightarrow> True | Some x \<Rightarrow> False)"

definition unmapped_skus_query :: "product list \<Rightarrow> supplier_product list \<Rightarrow> nat" where
  "unmapped_skus_query ps sps =
     length (remdups
       [p_sku p.
        p \<leftarrow> ps,
        sp \<leftarrow> left_join (\<lambda>sp. p_product_id p = sp_product_id sp) sps,
        is_null sp \<and> p_is_active p])"

text \<open>
  \<^verbatim>\<open>SELECT sku, SUM(quantity) as total_demand FROM hive.default.orders GROUP BY sku
  HAVING SUM(quantity) > 1000\<close>
\<close>

definition demand_spike_query :: "order_row list \<Rightarrow> (string \<times> int) list" where
  "demand_spike_query os = filter (\<lambda>row. snd row > 1000) (orders_by_sku os)"

text \<open>Python's \<^verbatim>\<open>str.strip()\<close> and \<^verbatim>\<open>str.split('\n')\<close>.\<close>

definition py_isspace :: "char \<Rightarrow> bool" where
  "py_isspace c = (c \<in> set [CHR '' '', CHR 0x09, CHR 0x0A, CHR 0x0B, CHR 0x0C, CHR 0x0D,
                             CHR 0x1C, CHR 0x1D, CHR 0x1E, CHR 0x1F])"

definition py_strip :: "string \<Rightarrow> string" where
  "py_strip s = rev (dropWhile py_isspace (rev (dropWhile py_isspace s)))"

fun py_split :: "char \<Rightarrow> string \<Rightarrow> string list" where
  "py_split sep [] = [[]]"
| "py_split sep (c # cs) =
     (if c = sep then [] # py_split sep cs
      else (case py_split sep cs of [] \<Rightarrow> [[c]] | w # ws \<Rightarrow> (c # w) # ws))"

text \<open>
  \<^verbatim>\<open>validate_data_quality\<close>: the list \<^verbatim>\<open>exceptions\<close> is printed when it is not empty, and
  the task returns \<^verbatim>\<open>True\<close> either way. The value given here is the list.
\<close>

definition validate_data_quality ::
  "product list \<Rightarrow> supplier_product list \<Rightarrow> order_row list \<Rightarrow> task_error + string list" where
  "validate_data_quality ps sps os =
     (let exceptions = [];
          stdout = csv_output [[show_nat (unmapped_skus_query ps sps)]];
          exceptions =
            (if \<not> sublist [dquote, CHR ''0'', dquote] stdout
             then exceptions @ [''WARNING: Products without supplier mappings detected'']
             else exceptions);
          stdout = csv_output (map (\<lambda>row. [fst row, show_int (snd row)]) (demand_spike_query os));
          exceptions =
            (if length (py_split newline (py_strip stdout)) > 1
             then exceptions @ [''INFO: Abnormal demand spike detected for some SKUs'']
             else exceptions)
      in Inr exceptions)"

section \<open>The chain of tasks\<close>

text \<open>
  \<^verbatim>\<open>task_validate_quality >> task_calculate_demand >> task_generate_orders\<close>: a task runs
  when the one before it has returned. The result is what the run leaves behind: the
  findings printed by the quality task and the rows of the supplier-order file.
\<close>

definition procurement_pipeline ::
  "product list \<Rightarrow> replenishment_rule list \<Rightarrow> order_row list \<Rightarrow> stock_row list
     \<Rightarrow> supplier_product list \<Rightarrow> supplier list
     \<Rightarrow> task_error + (string list \<times> supplier_order_row list)" where
  "procurement_pipeline ps rs os sts sps ss =
     (case validate_data_quality ps sps os of
        Inl e \<Rightarrow> Inl e
      | Inr findings \<Rightarrow>
          (case calculate_net_demand ps rs os sts of
             Inl e \<Rightarrow> Inl e
           | Inr nd \<Rightarrow>
               (case generate_supplier_orders nd ps sps ss of
                  Inl e \<Rightarrow> Inl e
                | Inr out \<Rightarrow> Inr (findings, out))))"

section \<open>The formulas of the specification\<close>

text \<open>
  The quantities as the specification words them, over the raw rows: the sum of the day's
  order-line quantities of a SKU, the sums of its available and reserved stock over all
  warehouses, and the entry that the Net-Demand Engine is to produce for a product and
  its rule. The theorems below compare the queries with them.
\<close>

definition spec_aggregated_orders :: "order_row list \<Rightarrow> string \<Rightarrow> int" where
  "spec_aggregated_orders os k = sum_list (map o_quantity (filter (\<lambda>x. o_sku x = k) os))"

definition spec_total_available :: "stock_row list \<Rightarrow> string \<Rightarrow> int" where
  "spec_total_available sts k = sum_list (map st_available_stock (filter (\<lambda>x. st_sku x = k) sts))"

definition spec_total_reserved :: "stock_row list \<Rightarrow> string \<Rightarrow> int" where
  "spec_total_reserved sts k = sum_list (map st_reserved_stock (filter (\<lambda>x. st_sku x = k) sts))"

definition net_demand_entry ::
  "order_row list \<Rightarrow> stock_row list \<Rightarrow> product \<Rightarrow> replenishment_rule \<Rightarrow> net_demand_row" where
  "net_demand_entry os sts p r =
     \<lparr>nd_sku = p_sku p,
      nd_product_name = p_product_name p,
      nd_aggregated_orders = spec_aggregated_orders os (p_sku p),
      nd_available_stock = spec_total_available sts (p_sku p),
      nd_reserved_stock = spec_total_reserved sts (p_sku p),
      nd_safety_stock = r_safety_stock r,
      nd_net_demand =
        max (spec_aggregated_orders os (p_sku p) + r_safety_stock r
              - (spec_total_available sts (p_sku p) - spec_total_reserved sts (p_sku p))) 0,
      nd_case_size = r_case_size r,
      nd_min_order_quantity = r_min_order_quantity r\<rparr>"

text \<open>\<open>order_quantity = ceil(net_demand / case_size) * case_size\<close>\<close>

definition spec_order_quantity :: "int \<Rightarrow> int \<Rightarrow> int" where
  "spec_order_quantity net_demand case_size =
     \<lceil>(of_int net_demand :: rat) / of_int case_size\<rceil> * case_size"

text \<open>
  The count that the specification gives for the unmapped-SKU check: the active products
  with no primary-supplier link.
\<close>

definition spec_unmapped_count :: "product list \<Rightarrow> supplier_product list \<Rightarrow> nat" where
  "spec_unmapped_count ps sps =
     length (filter (\<lambda>p. p_is_active p \<and>
        filter (\<lambda>sp. sp_product_id sp = p_product_id p \<and> sp_is_primary_supplier sp) sps = []) ps)"

section \<open>Auxiliary notions for the proofs\<close>

text \<open>
  Whether the rounding of a net-demand row fails, the quantity it gives when it does not,
  and the output line of a joined row.
\<close>

definition rounding_fails :: "net_demand_row \<Rightarrow> bool" where
  "rounding_fails n = isl (order_quantity (nd_net_demand n) (nd_case_size n))"

definition rounded_quantity :: "net_demand_row \<Rightarrow> int" where
  "rounded_quantity n =
     (case order_quantity (nd_net_demand n) (nd_case_size n) of Inl e \<Rightarrow> 0 | Inr q \<Rightarrow> q)"

definition joined_line :: "supplier \<times> net_demand_row \<Rightarrow> supplier_order_row" where
  "joined_line sn = supplier_order_line (fst sn) (snd sn) (rounded_quantity (snd sn))"

text \<open>
  The suppliers that the joins of the supplier-order query attach to a SKU, one for each
  primary link of a product with that SKU and each supplier row with the link's id; and a
  net-demand row with the column \<open>min_order_quantity\<close> blanked.
\<close>

definition primary_suppliers ::
  "string \<Rightarrow> product list \<Rightarrow> supplier_product list \<Rightarrow> supplier list \<Rightarrow> supplier list" where
  "primary_suppliers k ps sps ss =
     [s.
      p \<leftarrow> ps, k = p_sku p,
      sp \<leftarrow> sps, p_product_id p = sp_product_id sp,
      s \<leftarrow> ss, sp_supplier_id sp = s_supplier_id s,
      sp_is_primary_supplier sp]"

definition without_min_order_quantity :: "net_demand_row \<Rightarrow> net_demand_row" where
  "without_min_order_quantity n = n\<lparr>nd_min_order_quantity := 0\<rparr>"

definition linked_suppliers :: "int \<Rightarrow> supplier_product list \<Rightarrow> supplier list \<Rightarrow> supplier list" where
  "linked_suppliers pid sps ss =
     [s.
      sp \<leftarrow> sps, pid = sp_product_id sp,
      s \<leftarrow> ss, sp_supplier_id sp = s_supplier_id s,
      sp_is_primary_supplier sp]"

text \<open>The rows of the spike query as the fields that are printed.\<close>

definition spike_rows :: "(string \<times> int) list \<Rightarrow> string list list" where
  "spike_rows rows = map (\<lambda>row. [fst row, show_int (snd row)]) rows"

section \<open>Example tables\<close>

definition milk :: product where
  "milk = \<lparr>p_product_id = 1, p_sku = ''SKU00001'', p_product_name = ''Milk'', p_is_active = True\<rparr>"

definition tea :: product where
  "tea = \<lparr>p_product_id = 2, p_sku = ''SKU00002'', p_product_name = ''Tea'', p_is_active = True\<rparr>"

definition soap :: product where
  "soap = \<lparr>p_product_id = 3, p_sku = ''SKU00003'', p_product_name = ''Soap'', p_is_active = False\<rparr>"

definition milk_rule :: replenishment_rule where
  "milk_rule = \<lparr>r_product_id = 1, r_safety_stock = 20, r_min_order_quantity = 1, r_pack_size = 1,
     r_case_size = 12, r_max_order_quantity = 500, r_reorder_point = 50\<rparr>"

definition tea_rule :: replenishment_rule where
  "tea_rule = \<lparr>r_product_id = 2, r_safety_stock = 30, r_min_order_quantity = 24, r_pack_size = 4,
     r_case_size = 24, r_max_order_quantity = 600, r_reorder_point = 60\<rparr>"

definition soap_rule :: replenishment_rule where
  "soap_rule = \<lparr>r_product_id = 3, r_safety_stock = 10, r_min_order_quantity = 6, r_pack_size = 1,
     r_case_size = 6, r_max_order_quantity = 700, r_reorder_point = 70\<rparr>"

definition milk_order :: order_row where
  "milk_order = \<lparr>o_order_id = ''ORD1'', o_pos_store_id = ''POS1'', o_sku = ''SKU00001'', o_quantity = 100\<rparr>"

definition tea_order :: order_row where
  "tea_order = \<lparr>o_order_id = ''ORD2'', o_pos_store_id = ''POS2'', o_sku = ''SKU00002'', o_quantity = 5\<rparr>"

definition milk_stock :: stock_row where
  "milk_stock = \<lparr>st_warehouse_code = ''WH1'', st_sku = ''SKU00001'', st_available_stock = 60,
     st_reserved_stock = 10\<rparr>"

definition acme :: supplier where
  "acme = \<lparr>s_supplier_id = 1, s_supplier_code = ''SUP001'', s_supplier_name = ''Acme'', s_is_active = True\<rparr>"

definition bolt :: supplier where
  "bolt = \<lparr>s_supplier_id = 2, s_supplier_code = ''SUP002'', s_supplier_name = ''Bolt'', s_is_active = False\<rparr>"

definition link :: "int \<Rightarrow> int \<Rightarrow> bool \<Rightarrow> supplier_product" where
  "link sid pid primary = \<lparr>sp_supplier_id = sid, sp_product_id = pid, sp_is_primary_supplier = primary\<rparr>"

definition milk_demand :: net_demand_row where
  "milk_demand = \<lparr>nd_sku = ''SKU00001'', nd_product_name = ''Milk'', nd_aggregated_orders = 100,
     nd_available_stock = 60, nd_reserved_stock = 10, nd_safety_stock = 20, nd_net_demand = 70,
     nd_case_size = 12, nd_min_order_quantity = 1\<rparr>"

definition tea_demand :: net_demand_row where
  "tea_demand = \<lparr>nd_sku = ''SKU00002'', nd_product_name = ''Tea'', nd_aggregated_orders = 0,
     nd_available_stock = 0, nd_reserved_stock = 0, nd_safety_stock = 30, nd_net_demand = 30,
     nd_case_size = 24, nd_min_order_quantity = 24\<rparr>"

definition milk_line :: supplier_order_row where
  "milk_line = \<lparr>so_supplier_code = ''SUP001'', so_supplier_name = ''Acme'', so_sku = ''SKU00001'',
     so_product_name = ''Milk'', so_net_demand = 70, so_case_size = 12, so_order_quantity = 72\<rparr>"

definition milk_line_bolt :: supplier_order_row where
  "milk_line_bolt = \<lparr>so_supplier_code = ''SUP002'', so_supplier_name = ''Bolt'', so_sku = ''SKU00001'',
     so_product_name = ''Milk'', so_net_demand = 70, so_case_size = 12, so_order_quantity = 72\<rparr>"

definition spike_order :: order_row where
  "spike_order = \<lparr>o_order_id = ''ORD9'', o_pos_store_id = ''POS1'', o_sku = ''SKU00001'', o_quantity = 1500\<rparr>"

definition spike_order_tea :: order_row where
  "spike_order_tea = \<lparr>o_order_id = ''ORD8'', o_pos_store_id = ''POS1'', o_sku = ''SKU00002'', o_quantity = 1001\<rparr>"

lemmas example_defs =
  milk_def tea_def soap_def milk_rule_def tea_rule_def soap_rule_def milk_order_def tea_order_def
  milk_stock_def acme_def bolt_def link_def milk_demand_def tea_demand_def

section \<open>Net demand: the query against the formulas\<close>

lemma filter_eq_distinct:
  "distinct xs \<Longrightarrow> filter (\<lambda>y. k = y) xs = (if k \<in> set xs then [k] else [])"
  by (induction xs) auto

lemma left_join_orders_by_sku:
  "left_join (\<lambda>row. k = fst row) (orders_by_sku os) =
     [if k \<in> o_sku ` set os
      then Some (k, sum_list (map o_quantity (filter (\<lambda>x. o_sku x = k) os)))
      else None]"
  by (simp add: left_join_def orders_by_sku_def filter_map comp_def filter_eq_distinct)

lemma left_join_stock_by_sku:
  "left_join (\<lambda>row. k = fst row) (stock_by_sku sts) =
     [if k \<in> st_sku ` set sts
      then Some (k, sum_list (map st_available_stock (filter (\<lambda>x. st_sku x = k) sts)),
                    sum_list (map st_reserved_stock (filter (\<lambda>x. st_sku x = k) sts)))
      else None]"
  by (simp add: left_join_def stock_by_sku_def filter_map comp_def filter_eq_distinct)

lemma filter_no_match: "k \<notin> f ` set xs \<Longrightarrow> filter (\<lambda>x. f x = k) xs = []"
  by (induction xs) auto

lemma net_demand_query_entries:
  "net_demand_query ps rs os sts =
     [net_demand_entry os sts p r.
      p \<leftarrow> ps, r \<leftarrow> rs, p_product_id p = r_product_id r \<and> p_is_active p]"
  unfolding net_demand_query_def left_join_orders_by_sku left_join_stock_by_sku
  by (auto intro!: arg_cong[where f=concat] simp: net_demand_entry_def spec_aggregated_orders_def spec_total_available_def
      spec_total_reserved_def coalesce_def greatest_def max_def filter_no_match)

lemma calculate_net_demand_eq:
  "calculate_net_demand ps rs os sts = Inr (net_demand_query ps rs os sts)"
  by (simp add: calculate_net_demand_def)

lemma spec_aggregated_orders_none:
  "k \<notin> o_sku ` set os \<Longrightarrow> spec_aggregated_orders os k = 0"
  by (simp add: spec_aggregated_orders_def filter_no_match)

lemma spec_total_stock_none:
  "k \<notin> st_sku ` set sts \<Longrightarrow> spec_total_available sts k = 0 \<and> spec_total_reserved sts k = 0"
  by (simp add: spec_total_available_def spec_total_reserved_def filter_no_match)

text \<open>
  Claim C1. The task returns with a table in which every entry carries the sums of the
  day's order quantities and of the available and reserved stock of its SKU (zero when the
  SKU has no rows), and \<open>net_demand = max (aggregated_orders + safety_stock -
  (available - reserved)) 0\<close>, which is never negative. Every active product with a rule
  has such an entry, and when the SKU has no order line and no stock record and the
  safety stock is not negative, its net demand is the safety stock.
\<close>

theorem net_demand_formula:
  "\<exists>nd. calculate_net_demand ps rs os sts = Inr nd \<and>
     (\<forall>e\<in>set nd.
        nd_aggregated_orders e = spec_aggregated_orders os (nd_sku e) \<and>
        nd_available_stock e = spec_total_available sts (nd_sku e) \<and>
        nd_reserved_stock e = spec_total_reserved sts (nd_sku e) \<and>
        nd_net_demand e =
          max (nd_aggregated_orders e + nd_safety_stock e
                - (nd_available_stock e - nd_reserved_stock e)) 0 \<and>
        0 \<le> nd_net_demand e) \<and>
     (\<forall>p\<in>set ps. \<forall>r\<in>set rs. p_is_active p \<and> p_product_id p = r_product_id r \<longrightarrow>
        (\<exists>e\<in>set nd.
           nd_sku e = p_sku p \<and> nd_safety_stock e = r_safety_stock r \<and>
           nd_net_demand e =
             max (spec_aggregated_orders os (p_sku p) + r_safety_stock r
                   - (spec_total_available sts (p_sku p) - spec_total_reserved sts (p_sku p))) 0 \<and>
           (p_sku p \<notin> o_sku ` set os \<and> p_sku p \<notin> st_sku ` set sts \<and> 0 \<le> r_safety_stock r
              \<longrightarrow> nd_aggregated_orders e = 0 \<and> nd_available_stock e = 0 \<and>
                  nd_reserved_stock e = 0 \<and> nd_net_demand e = r_safety_stock r)))"
proof -
  let ?nd = "net_demand_query ps rs os sts"
  have entries: "set ?nd =
      {net_demand_entry os sts p r | p r.
         p \<in> set ps \<and> r \<in> set rs \<and> p_product_id p = r_product_id r \<and> p_is_active p}"
    unfolding net_demand_query_entries by auto
  have every: "\<forall>e\<in>set ?nd.
        nd_aggregated_orders e = spec_aggregated_orders os (nd_sku e) \<and>
        nd_available_stock e = spec_total_available sts (nd_sku e) \<and>
        nd_reserved_stock e = spec_total_reserved sts (nd_sku e) \<and>
        nd_net_demand e =
          max (nd_aggregated_orders e + nd_safety_stock e
                - (nd_available_stock e - nd_reserved_stock e)) 0 \<and>
        0 \<le> nd_net_demand e"
    unfolding entries by (auto simp: net_demand_entry_def)
  have each: "\<exists>e\<in>set ?nd.
           nd_sku e = p_sku p \<and> nd_safety_stock e = r_safety_stock r \<and>
           nd_net_demand e =
             max (spec_aggregated_orders os (p_sku p) + r_safety_stock r
                   - (spec_total_available sts (p_sku p) - spec_total_reserved sts (p_sku p))) 0 \<and>
           (p_sku p \<notin> o_sku ` set os \<and> p_sku p \<notin> st_sku ` set sts \<and> 0 \<le> r_safety_stock r
              \<longrightarrow> nd_aggregated_orders e = 0 \<and> nd_available_stock e = 0 \<and>
                  nd_reserved_stock e = 0 \<and> nd_net_demand e = r_safety_stock r)"
    if "p \<in> set ps" "r \<in> set rs" "p_is_active p" "p_product_id p = r_product_id r" for p r
  proof -
    have "net_demand_entry os sts p r \<in> set ?nd"
      unfolding entries using that by blast
    then show ?thesis
      by (rule bexI[rotated])
        (simp add: net_demand_entry_def spec_aggregated_orders_none spec_total_stock_none)
  qed
  show ?thesis
    unfolding calculate_net_demand_eq using every each by blast
qed

theorem net_demand_formula_witness:
  "p_is_active tea \<and> p_product_id tea = r_product_id tea_rule \<and>
   p_sku tea \<notin> o_sku ` set [milk_order] \<and> p_sku tea \<notin> st_sku ` set [milk_stock] \<and>
   0 \<le> r_safety_stock tea_rule \<and>
   (\<exists>nd. calculate_net_demand [milk, tea] [milk_rule, tea_rule] [milk_order] [milk_stock] = Inr nd \<and>
      (\<exists>e\<in>set nd. nd_sku e = ''SKU00002'' \<and> nd_net_demand e = 30) \<and>
      (\<exists>e\<in>set nd. nd_sku e = ''SKU00001'' \<and> nd_net_demand e = 70))"
proof -
  from net_demand_formula[of "[milk, tea]" "[milk_rule, tea_rule]" "[milk_order]" "[milk_stock]"]
  obtain nd where nd: "calculate_net_demand [milk, tea] [milk_rule, tea_rule] [milk_order] [milk_stock] = Inr nd"
    and each: "\<forall>p\<in>set [milk, tea]. \<forall>r\<in>set [milk_rule, tea_rule].
        p_is_active p \<and> p_product_id p = r_product_id r \<longrightarrow>
        (\<exists>e\<in>set nd.
           nd_sku e = p_sku p \<and> nd_safety_stock e = r_safety_stock r \<and>
           nd_net_demand e =
             max (spec_aggregated_orders [milk_order] (p_sku p) + r_safety_stock r
                   - (spec_total_available [milk_stock] (p_sku p)
                       - spec_total_reserved [milk_stock] (p_sku p))) 0 \<and>
           (p_sku p \<notin> o_sku ` set [milk_order] \<and> p_sku p \<notin> st_sku ` set [milk_stock] \<and>
            0 \<le> r_safety_stock r
              \<longrightarrow> nd_aggregated_orders e = 0 \<and> nd_available_stock e = 0 \<and>
                  nd_reserved_stock e = 0 \<and> nd_net_demand e = r_safety_stock r))"
    by blast
  have facts: "p_is_active tea" "p_product_id tea = r_product_id tea_rule"
    "p_sku tea \<notin> o_sku ` set [milk_order]" "p_sku tea \<notin> st_sku ` set [milk_stock]"
    "0 \<le> r_safety_stock tea_rule" "p_is_active milk" "p_product_id milk = r_product_id milk_rule"
    by (simp_all add: example_defs)
  from each facts have "\<exists>e\<in>set nd. nd_sku e = p_sku tea \<and> nd_net_demand e = r_safety_stock tea_rule"
    by (simp (no_asm_use)) blast
  then have tea: "\<exists>e\<in>set nd. nd_sku e = ''SKU00002'' \<and> nd_net_demand e = 30"
    by (simp add: example_defs)
  from each facts have "\<exists>e\<in>set nd. nd_sku e = p_sku milk \<and>
      nd_net_demand e = max (spec_aggregated_orders [milk_order] (p_sku milk) + r_safety_stock milk_rule
                   - (spec_total_available [milk_stock] (p_sku milk)
                       - spec_total_reserved [milk_stock] (p_sku milk))) 0"
    by (simp (no_asm_use)) blast
  then have milk: "\<exists>e\<in>set nd. nd_sku e = ''SKU00001'' \<and> nd_net_demand e = 70"
    by (simp add: example_defs spec_aggregated_orders_def spec_total_available_def
        spec_total_reserved_def)
  from facts nd tea milk show ?thesis by blast
qed

lemma filter_key_distinct:
  "distinct (map f xs) \<Longrightarrow> x \<in> set xs \<Longrightarrow> filter (\<lambda>y. f y = f x) xs = [x]"
proof (induction xs)
  case Nil
  then show ?case by simp
next
  case (Cons a xs)
  show ?case
  proof (cases "a = x")
    case True
    have "f x \<notin> f ` set xs"
      using Cons.prems True by simp
    then have "filter (\<lambda>y. f y = f x) xs = []"
      by (rule filter_no_match)
    with True show ?thesis by simp
  next
    case False
    with Cons show ?thesis by auto
  qed
qed

lemma rules_of_product:
  assumes "distinct (map r_product_id rs)"
  shows "length (filter (\<lambda>r. k = r_product_id r) rs) = (if k \<in> r_product_id ` set rs then 1 else 0)"
proof (cases "k \<in> r_product_id ` set rs")
  case True
  then obtain r where r: "r \<in> set rs" "r_product_id r = k" by auto
  have "filter (\<lambda>y. r_product_id y = r_product_id r) rs = [r]"
    using assms r(1) by (rule filter_key_distinct)
  then have "filter (\<lambda>y. k = r_product_id y) rs = [r]"
    using r(2) by (simp add: eq_commute)
  with True show ?thesis by simp
next
  case False
  then have "filter (\<lambda>r. k = r_product_id r) rs = []"
    by (auto simp: filter_empty_conv)
  with False show ?thesis by simp
qed

lemma net_demand_query_skus:
  assumes "distinct (map r_product_id rs)"
  shows "map nd_sku (net_demand_query ps rs os sts) =
           map p_sku (filter (\<lambda>p. p_is_active p \<and> p_product_id p \<in> r_product_id ` set rs) ps)"
proof -
  have inner: "map nd_sku (concat (map (\<lambda>r. if p_product_id p = r_product_id r \<and> p_is_active p
                          then [net_demand_entry os sts p r] else []) rs)) =
        (if p_is_active p \<and> p_product_id p \<in> r_product_id ` set rs then [p_sku p] else [])" for p
  proof -
    have "map nd_sku (concat (map (\<lambda>r. if p_product_id p = r_product_id r \<and> p_is_active p
                          then [net_demand_entry os sts p r] else []) rs)) =
          (if p_is_active p then replicate (length (filter (\<lambda>r. p_product_id p = r_product_id r) rs)) (p_sku p) else [])"
      by (induction rs) (auto simp: net_demand_entry_def)
    then show ?thesis
      using rules_of_product[OF assms, of "p_product_id p"] by (simp split: if_splits)
  qed
  show ?thesis
    unfolding net_demand_query_entries
    by (induction ps) (simp_all add: inner)
qed

text \<open>
  Claim C4. With SKUs unique among the products and one rule row per product id (the keys
  of the two tables), the SKU column of the net-demand table is the list of the SKUs of
  the active products that have a rule: each such product has exactly one entry, and a
  product that is inactive or has no rule has none, whatever the orders and the stock.
\<close>

theorem net_demand_one_entry_per_product:
  assumes "distinct (map p_sku ps)" and "distinct (map r_product_id rs)"
  shows "\<exists>nd. calculate_net_demand ps rs os sts = Inr nd \<and>
           map nd_sku nd =
             map p_sku (filter (\<lambda>p. p_is_active p \<and> p_product_id p \<in> r_product_id ` set rs) ps) \<and>
           (\<forall>p\<in>set ps. length (filter (\<lambda>e. nd_sku e = p_sku p) nd) =
              (if p_is_active p \<and> p_product_id p \<in> r_product_id ` set rs then 1 else 0))"
proof -
  let ?nd = "net_demand_query ps rs os sts"
  let ?Q = "\<lambda>p. p_is_active p \<and> p_product_id p \<in> r_product_id ` set rs"
  have skus: "map nd_sku ?nd = map p_sku (filter ?Q ps)"
    using assms(2) by (rule net_demand_query_skus)
  have count: "length (filter (\<lambda>e. nd_sku e = p_sku p) ?nd) = (if ?Q p then 1 else 0)"
    if "p \<in> set ps" for p
  proof -
    have "length (filter (\<lambda>e. nd_sku e = p_sku p) ?nd) =
          length (filter (\<lambda>k. k = p_sku p) (map nd_sku ?nd))"
      by (simp add: filter_map comp_def)
    also have "\<dots> = length (filter ?Q (filter (\<lambda>q. p_sku q = p_sku p) ps))"
      unfolding skus by (simp add: filter_map comp_def conj_commute)
    also have "filter (\<lambda>q. p_sku q = p_sku p) ps = [p]"
      using assms(1) that by (rule filter_key_distinct)
    finally show ?thesis by simp
  qed
  show ?thesis
    unfolding calculate_net_demand_eq using skus count by blast
qed

theorem net_demand_one_entry_per_product_witness:
  "distinct (map p_sku [milk, tea, soap]) \<and> distinct (map r_product_id [milk_rule, soap_rule]) \<and>
   (\<exists>nd. calculate_net_demand [milk, tea, soap] [milk_rule, soap_rule] [tea_order] [milk_stock] = Inr nd \<and>
      map nd_sku nd = [''SKU00001''] \<and>
      length (filter (\<lambda>e. nd_sku e = ''SKU00001'') nd) = 1 \<and>
      length (filter (\<lambda>e. nd_sku e = ''SKU00002'') nd) = 0 \<and>
      length (filter (\<lambda>e. nd_sku e = ''SKU00003'') nd) = 0)"
proof -
  have keys: "distinct (map p_sku [milk, tea, soap])" "distinct (map r_product_id [milk_rule, soap_rule])"
    by (simp_all add: example_defs)
  from net_demand_one_entry_per_product[OF keys, of "[tea_order]" "[milk_stock]"]
  obtain nd where nd: "calculate_net_demand [milk, tea, soap] [milk_rule, soap_rule] [tea_order] [milk_stock] = Inr nd"
    and skus: "map nd_sku nd = map p_sku (filter (\<lambda>p. p_is_active p \<and>
                 p_product_id p \<in> r_product_id ` set [milk_rule, soap_rule]) [milk, tea, soap])"
    and count: "\<forall>p\<in>set [milk, tea, soap]. length (filter (\<lambda>e. nd_sku e = p_sku p) nd) =
              (if p_is_active p \<and> p_product_id p \<in> r_product_id ` set [milk_rule, soap_rule]
               then 1 else 0)"
    by blast
  from skus have 1: "map nd_sku nd = [''SKU00001'']"
    by (simp add: example_defs)
  from count have 2: "length (filter (\<lambda>e. nd_sku e = ''SKU00001'') nd) = 1"
    "length (filter (\<lambda>e. nd_sku e = ''SKU00002'') nd) = 0"
    "length (filter (\<lambda>e. nd_sku e = ''SKU00003'') nd) = 0"
    by (simp_all add: example_defs)
  from keys nd 1 2 show ?thesis
    by - (intro conjI exI[of _ nd]; assumption)
qed

section \<open>Supplier orders: what the query returns\<close>

lemma rounding_succeeds:
  "\<not> rounding_fails n \<Longrightarrow>
     order_quantity (nd_net_demand n) (nd_case_size n) = Inr (rounded_quantity n)"
  by (cases "order_quantity (nd_net_demand n) (nd_case_size n)")
     (simp_all add: rounding_fails_def rounded_quantity_def)

lemma rounding_fails_iff:
  "rounding_fails n \<longleftrightarrow> (\<exists>e. order_quantity (nd_net_demand n) (nd_case_size n) = Inl e)"
  by (cases "order_quantity (nd_net_demand n) (nd_case_size n)")
     (simp_all add: rounding_fails_def)

lemma rounding_fails_zero: "nd_case_size n = 0 \<Longrightarrow> rounding_fails n"
  by (simp add: rounding_fails_def order_quantity_def decimal_divide_def)

text \<open>
  The two ways in which the rounding of a row fails, and Scenario A of the specification.
\<close>

lemma order_quantity_examples:
  "order_quantity 70 12 = Inr 72"
  "order_quantity 70 0 = Inl Division_by_zero"
  "order_quantity 2147483647 12 = Inl Out_of_range"
  by code_simp+

lemma select_lines_Inr:
  "select_lines rows = Inr out \<longleftrightarrow>
     (\<forall>sn\<in>set rows. \<not> rounding_fails (snd sn)) \<and> out = map joined_line rows"
proof (induction rows arbitrary: out rule: select_lines.induct)
  case 1
  then show ?case by auto
next
  case (2 s n rest)
  show ?case
  proof (cases "rounding_fails n")
    case True
    then obtain e where "order_quantity (nd_net_demand n) (nd_case_size n) = Inl e"
      unfolding rounding_fails_iff by blast
    with True show ?thesis by simp
  next
    case False
    then have q: "order_quantity (nd_net_demand n) (nd_case_size n) = Inr (rounded_quantity n)"
      by (rule rounding_succeeds)
    show ?thesis
    proof (cases "select_lines rest")
      case (Inl e)
      with "2"[OF q, of "map joined_line rest"] have "\<not> (\<forall>sn\<in>set rest. \<not> rounding_fails (snd sn))"
        by simp
      with q Inl show ?thesis by simp
    next
      case (Inr out')
      with "2"[OF q, of out'] have "(\<forall>sn\<in>set rest. \<not> rounding_fails (snd sn))"
        and "out' = map joined_line rest"
        by simp_all
      with q Inr False show ?thesis
        by (auto simp: joined_line_def)
    qed
  qed
qed

lemma generate_supplier_orders_eq:
  "generate_supplier_orders nd ps sps ss =
     (if \<exists>sn\<in>set (supplier_order_joins nd ps sps ss). rounding_fails (snd sn)
      then Inl Supplier_order_generation_failed
      else Inr (sort_key (\<lambda>l. (so_supplier_code l, so_sku l))
                  (map joined_line (supplier_order_joins nd ps sps ss))))"
proof (cases "select_lines (supplier_order_joins nd ps sps ss)")
  case (Inl e)
  have "\<not> (\<forall>sn\<in>set (supplier_order_joins nd ps sps ss). \<not> rounding_fails (snd sn))"
  proof
    assume "\<forall>sn\<in>set (supplier_order_joins nd ps sps ss). \<not> rounding_fails (snd sn)"
    then have "select_lines (supplier_order_joins nd ps sps ss) =
        Inr (map joined_line (supplier_order_joins nd ps sps ss))"
      unfolding select_lines_Inr by simp
    with Inl show False by simp
  qed
  with Inl show ?thesis
    by (simp add: generate_supplier_orders_def supplier_orders_query_def)
next
  case (Inr out)
  then have "\<forall>sn\<in>set (supplier_order_joins nd ps sps ss). \<not> rounding_fails (snd sn)"
    and "out = map joined_line (supplier_order_joins nd ps sps ss)"
    unfolding select_lines_Inr by simp_all
  with Inr show ?thesis
    by (simp add: generate_supplier_orders_def supplier_orders_query_def)
qed

lemma in_supplier_order_joins:
  "(s, n) \<in> set (supplier_order_joins nd ps sps ss) \<longleftrightarrow>
     n \<in> set nd \<and> 0 < nd_net_demand n \<and> s \<in> set ss \<and>
        (\<exists>p\<in>set ps. \<exists>sp\<in>set sps. nd_sku n = p_sku p \<and> p_product_id p = sp_product_id sp \<and>
           sp_supplier_id sp = s_supplier_id s \<and> sp_is_primary_supplier sp)"
  unfolding supplier_order_joins_def by (simp split: if_splits) blast

lemma spec_order_quantity_bounds:
  assumes "1 \<le> c"
  shows "c dvd spec_order_quantity n c" and "n \<le> spec_order_quantity n c"
    and "spec_order_quantity n c < n + c"
    and "\<And>m. c dvd m \<Longrightarrow> n \<le> m \<Longrightarrow> spec_order_quantity n c \<le> m"
proof -
  have eq: "spec_order_quantity n c = - (c * (- n div c))"
    unfolding spec_order_quantity_def by (simp add: ceiling_divide_eq_div)
  show "c dvd spec_order_quantity n c" unfolding eq by simp
  have pos: "0 < c" using assms by simp
  have 1: "c * (- n div c) + (- n) mod c = - n" by (rule mult_div_mod_eq)
  have 2: "0 \<le> (- n) mod c" "(- n) mod c < c" using pos by simp_all
  show "n \<le> spec_order_quantity n c" unfolding eq using 1 2 by linarith
  show "spec_order_quantity n c < n + c" unfolding eq using 1 2 by linarith
  show "spec_order_quantity n c \<le> m" if "c dvd m" "n \<le> m" for m
  proof -
    from that(1) obtain k where k: "m = c * k" by (auto simp: dvd_def)
    have "- m \<le> - n" using that(2) by simp
    then have "(- m) div c \<le> (- n) div c" using pos by (simp add: zdiv_mono1)
    moreover have "(- m) div c = - k"
    proof -
      have "- m = c * (- k)" unfolding k by simp
      then show ?thesis using pos by (simp del: mult_minus_right)
    qed
    ultimately have "- (- n div c) \<le> k" by simp
    then have "c * (- (- n div c)) \<le> c * k" using pos by (intro mult_left_mono) simp_all
    then show ?thesis unfolding eq k by simp
  qed
qed



lemma map_concat_if:
  "map f (concat (map (\<lambda>x. if c x then g x else []) xs)) =
     concat (map (\<lambda>x. if c x then map f (g x) else []) xs)"
  by (induction xs) auto

lemma supplier_order_joins_alt:
  "supplier_order_joins nd ps sps ss =
     concat (map (\<lambda>n. if 0 < nd_net_demand n
                       then map (\<lambda>s. (s, n)) (primary_suppliers (nd_sku n) ps sps ss) else []) nd)"
proof -
  have inner: "concat (map (\<lambda>p. if nd_sku n = p_sku p then
            concat (map (\<lambda>sp. if p_product_id p = sp_product_id sp then
              concat (map (\<lambda>s. if sp_supplier_id sp = s_supplier_id s then
                 if sp_is_primary_supplier sp \<and> 0 < nd_net_demand n then [(s, n)] else [] else []) ss)
              else []) sps) else []) ps) =
        (if 0 < nd_net_demand n then map (\<lambda>s. (s, n)) (primary_suppliers (nd_sku n) ps sps ss) else [])" for n
  proof (cases "0 < nd_net_demand n")
    case True
    then show ?thesis
      unfolding primary_suppliers_def
      by (simp add: map_concat_if comp_def if_distrib[of "map _"] cong: if_cong)
  next
    case False
    then show ?thesis by auto
  qed
  show ?thesis
    unfolding supplier_order_joins_def by (simp add: inner)
qed

lemma generate_supplier_orders_lines:
  assumes "generate_supplier_orders nd ps sps ss = Inr out"
  shows "out = sort_key (\<lambda>l. (so_supplier_code l, so_sku l))
                 (map joined_line (supplier_order_joins nd ps sps ss))"
    and "set out = joined_line ` set (supplier_order_joins nd ps sps ss)"
    and "\<forall>sn\<in>set (supplier_order_joins nd ps sps ss). \<not> rounding_fails (snd sn)"
proof -
  from assms show 1: "out = sort_key (\<lambda>l. (so_supplier_code l, so_sku l))
                 (map joined_line (supplier_order_joins nd ps sps ss))"
    unfolding generate_supplier_orders_eq by (simp split: if_splits)
  show "set out = joined_line ` set (supplier_order_joins nd ps sps ss)"
    unfolding 1 by simp
  from assms show "\<forall>sn\<in>set (supplier_order_joins nd ps sps ss). \<not> rounding_fails (snd sn)"
    unfolding generate_supplier_orders_eq by (simp split: if_splits)
qed

lemma generate_supplier_orders_returns:
  assumes "\<forall>n\<in>set nd. 0 < nd_net_demand n \<longrightarrow>
             (\<exists>q. order_quantity (nd_net_demand n) (nd_case_size n) = Inr q)"
  shows "generate_supplier_orders nd ps sps ss =
           Inr (sort_key (\<lambda>l. (so_supplier_code l, so_sku l))
                 (map joined_line (supplier_order_joins nd ps sps ss)))"
proof -
  have "\<not> (\<exists>sn\<in>set (supplier_order_joins nd ps sps ss). rounding_fails (snd sn))"
    using assms by (auto simp: in_supplier_order_joins rounding_fails_iff)
  then show ?thesis
    unfolding generate_supplier_orders_eq by simp
qed

lemma supplier_order_joins_without_min:
  "supplier_order_joins (map without_min_order_quantity nd) ps sps ss =
     map (\<lambda>sn. (fst sn, without_min_order_quantity (snd sn))) (supplier_order_joins nd ps sps ss)"
  unfolding supplier_order_joins_alt
  by (induction nd) (simp_all add: without_min_order_quantity_def comp_def)

lemma generate_supplier_orders_without_min:
  "generate_supplier_orders (map without_min_order_quantity nd) ps sps ss =
     generate_supplier_orders nd ps sps ss"
proof -
  have "joined_line (fst sn, without_min_order_quantity (snd sn)) = joined_line sn" for sn
    by (simp add: joined_line_def supplier_order_line_def rounded_quantity_def
        without_min_order_quantity_def)
  moreover have "rounding_fails (without_min_order_quantity n) = rounding_fails n" for n
    by (simp add: rounding_fails_def without_min_order_quantity_def)
  ultimately show ?thesis
    unfolding generate_supplier_orders_eq supplier_order_joins_without_min
    by (simp add: comp_def)
qed

lemma net_demand_query_without_min:
  "map without_min_order_quantity
     (net_demand_query ps
        (map (\<lambda>r. r\<lparr>r_min_order_quantity := f r, r_max_order_quantity := g r\<rparr>) rs) os sts) =
   map without_min_order_quantity (net_demand_query ps rs os sts)"
proof -
  have inner: "map without_min_order_quantity
       (concat (map (\<lambda>r. if p_product_id p = r_product_id r \<and> p_is_active p
                          then [net_demand_entry os sts p r] else [])
          (map (\<lambda>r. r\<lparr>r_min_order_quantity := f r, r_max_order_quantity := g r\<rparr>) rs))) =
     map without_min_order_quantity
       (concat (map (\<lambda>r. if p_product_id p = r_product_id r \<and> p_is_active p
                          then [net_demand_entry os sts p r] else []) rs))" for p
    by (induction rs) (simp_all add: net_demand_entry_def without_min_order_quantity_def)
  show ?thesis
    unfolding net_demand_query_entries
    by (induction ps) (simp_all add: inner del: map_map)
qed

lemma min_max_order_quantity_ignored:
  "procurement_pipeline ps
     (map (\<lambda>r. r\<lparr>r_min_order_quantity := f r, r_max_order_quantity := g r\<rparr>) rs) os sts sps ss =
   procurement_pipeline ps rs os sts sps ss"
proof -
  let ?rs' = "map (\<lambda>r. r\<lparr>r_min_order_quantity := f r, r_max_order_quantity := g r\<rparr>) rs"
  have "generate_supplier_orders (net_demand_query ps ?rs' os sts) ps sps ss =
        generate_supplier_orders (map without_min_order_quantity (net_demand_query ps ?rs' os sts)) ps sps ss"
    by (simp only: generate_supplier_orders_without_min)
  also have "\<dots> = generate_supplier_orders (map without_min_order_quantity (net_demand_query ps rs os sts)) ps sps ss"
    by (simp only: net_demand_query_without_min)
  also have "\<dots> = generate_supplier_orders (net_demand_query ps rs os sts) ps sps ss"
    by (simp only: generate_supplier_orders_without_min)
  finally have "generate_supplier_orders (net_demand_query ps ?rs' os sts) ps sps ss =
      generate_supplier_orders (net_demand_query ps rs os sts) ps sps ss" .
  then show ?thesis
    by (cases "validate_data_quality ps sps os")
       (simp_all add: procurement_pipeline_def calculate_net_demand_eq)
qed

text \<open>
  Claim C2. The quotient is rounded to one decimal place before the ceiling is taken, so
  a remainder of less than a twentieth of a case is lost: for a net demand of 25 and a
  case size of 24 the specification's formula gives 48 and the query gives 24, one case,
  which is below the net demand. The run for a product with safety stock 25, no orders
  and no stock emits that line.
\<close>

theorem case_rounding_under_delivers:
  "spec_order_quantity 25 24 = 48 \<and>
   order_quantity 25 24 = Inr 24 \<and>
   procurement_pipeline [tea] [tea_rule\<lparr>r_safety_stock := 25\<rparr>] [] [] [link 1 2 True] [acme] =
     Inr ([], [\<lparr>so_supplier_code = ''SUP001'', so_supplier_name = ''Acme'', so_sku = ''SKU00002'',
                 so_product_name = ''Tea'', so_net_demand = 25, so_case_size = 24,
                 so_order_quantity = 24\<rparr>])"
  by code_simp

lemma in_primary_suppliers:
  "s \<in> set (primary_suppliers k ps sps ss) \<longleftrightarrow>
     s \<in> set ss \<and>
     (\<exists>p\<in>set ps. \<exists>sp\<in>set sps. k = p_sku p \<and> p_product_id p = sp_product_id sp \<and>
        sp_supplier_id sp = s_supplier_id s \<and> sp_is_primary_supplier sp)"
  unfolding primary_suppliers_def by (simp split: if_splits) blast

lemma primary_suppliers_is_active:
  "primary_suppliers k ps sps (map (\<lambda>s. s\<lparr>s_is_active := f s\<rparr>) ss) =
     map (\<lambda>s. s\<lparr>s_is_active := f s\<rparr>) (primary_suppliers k ps sps ss)"
proof -
  have inner: "concat (map (\<lambda>s. if sid = s_supplier_id s then if b then [s] else [] else [])
                  (map (\<lambda>s. s\<lparr>s_is_active := f s\<rparr>) ss)) =
        map (\<lambda>s. s\<lparr>s_is_active := f s\<rparr>)
          (concat (map (\<lambda>s. if sid = s_supplier_id s then if b then [s] else [] else []) ss))"
    for sid b
    by (induction ss) simp_all
  show ?thesis
    unfolding primary_suppliers_def
    by (simp add: inner map_concat_if comp_def if_distrib[of "map _"] del: map_map cong: if_cong)
qed

lemma generate_supplier_orders_is_active:
  "generate_supplier_orders nd ps sps (map (\<lambda>s. s\<lparr>s_is_active := f s\<rparr>) ss) =
     generate_supplier_orders nd ps sps ss"
proof -
  have "map joined_line (supplier_order_joins nd ps sps (map (\<lambda>s. s\<lparr>s_is_active := f s\<rparr>) ss)) =
        map joined_line (supplier_order_joins nd ps sps ss)"
    unfolding supplier_order_joins_alt primary_suppliers_is_active
    by (induction nd) (simp_all add: comp_def joined_line_def supplier_order_line_def)
  moreover have "(\<exists>sn\<in>set (supplier_order_joins nd ps sps (map (\<lambda>s. s\<lparr>s_is_active := f s\<rparr>) ss)).
                    rounding_fails (snd sn)) \<longleftrightarrow>
                 (\<exists>sn\<in>set (supplier_order_joins nd ps sps ss). rounding_fails (snd sn))"
  proof -
    have "map snd (supplier_order_joins nd ps sps (map (\<lambda>s. s\<lparr>s_is_active := f s\<rparr>) ss)) =
          map snd (supplier_order_joins nd ps sps ss)"
      unfolding supplier_order_joins_alt primary_suppliers_is_active
      by (induction nd) (simp_all add: comp_def)
    then have "snd ` set (supplier_order_joins nd ps sps (map (\<lambda>s. s\<lparr>s_is_active := f s\<rparr>) ss)) =
          snd ` set (supplier_order_joins nd ps sps ss)"
      by (simp only: set_map[symmetric])
    then show ?thesis
      by (simp only: bex_simps(7)[symmetric, where f = snd and P = rounding_fails])
  qed
  ultimately show ?thesis
    unfolding generate_supplier_orders_eq by simp
qed

text \<open>
  Claim C10, as the code has it. The query has no condition on \<open>s.is_active\<close>. Whenever
  the task returns, a SKU with positive net demand whose primary link leads to an inactive
  supplier has a line that names this supplier, with the quantity the rounding gives; the
  task returns when the rounding succeeds on every row with positive net demand; and the
  result of the task, output or failure, is the same whatever the \<open>is_active\<close> flags of
  the suppliers are. When the rounding of a row fails, the task raises and no line is
  written.
\<close>

theorem inactive_supplier_not_filtered:
  assumes "n \<in> set nd" and "0 < nd_net_demand n"
    and "p \<in> set ps" and "nd_sku n = p_sku p"
    and "sp \<in> set sps" and "p_product_id p = sp_product_id sp" and "sp_is_primary_supplier sp"
    and "s \<in> set ss" and "sp_supplier_id sp = s_supplier_id s" and "\<not> s_is_active s"
  shows "(\<forall>out. generate_supplier_orders nd ps sps ss = Inr out \<longrightarrow>
            (\<exists>l\<in>set out. so_supplier_code l = s_supplier_code s \<and>
               so_supplier_name l = s_supplier_name s \<and> so_sku l = nd_sku n \<and>
               so_net_demand l = nd_net_demand n \<and>
               order_quantity (nd_net_demand n) (nd_case_size n) = Inr (so_order_quantity l))) \<and>
         ((\<forall>m\<in>set nd. 0 < nd_net_demand m \<longrightarrow>
             (\<exists>q. order_quantity (nd_net_demand m) (nd_case_size m) = Inr q)) \<longrightarrow>
            (\<exists>out. generate_supplier_orders nd ps sps ss = Inr out)) \<and>
         (\<forall>f. generate_supplier_orders nd ps sps (map (\<lambda>s. s\<lparr>s_is_active := f s\<rparr>) ss) =
               generate_supplier_orders nd ps sps ss)"
proof (intro conjI allI impI)
  have sn: "(s, n) \<in> set (supplier_order_joins nd ps sps ss)"
    unfolding in_supplier_order_joins using assms by blast
  fix out
  assume out: "generate_supplier_orders nd ps sps ss = Inr out"
  from generate_supplier_orders_lines(2)[OF out] sn
  have mem: "joined_line (s, n) \<in> set out" by simp
  from generate_supplier_orders_lines(3)[OF out] sn
  have "\<not> rounding_fails n" by force
  then have "order_quantity (nd_net_demand n) (nd_case_size n) = Inr (rounded_quantity n)"
    by (rule rounding_succeeds)
  then have "so_supplier_code (joined_line (s, n)) = s_supplier_code s \<and>
    so_supplier_name (joined_line (s, n)) = s_supplier_name s \<and>
    so_sku (joined_line (s, n)) = nd_sku n \<and>
    so_net_demand (joined_line (s, n)) = nd_net_demand n \<and>
    order_quantity (nd_net_demand n) (nd_case_size n) = Inr (so_order_quantity (joined_line (s, n)))"
    by (simp add: joined_line_def supplier_order_line_def)
  with mem show "\<exists>l\<in>set out. so_supplier_code l = s_supplier_code s \<and>
               so_supplier_name l = s_supplier_name s \<and> so_sku l = nd_sku n \<and>
               so_net_demand l = nd_net_demand n \<and>
               order_quantity (nd_net_demand n) (nd_case_size n) = Inr (so_order_quantity l)"
    by (rule bexI[rotated])
next
  assume "\<forall>m\<in>set nd. 0 < nd_net_demand m \<longrightarrow>
             (\<exists>q. order_quantity (nd_net_demand m) (nd_case_size m) = Inr q)"
  then have "generate_supplier_orders nd ps sps ss =
           Inr (sort_key (\<lambda>l. (so_supplier_code l, so_sku l))
                 (map joined_line (supplier_order_joins nd ps sps ss)))"
    by (rule generate_supplier_orders_returns)
  then show "\<exists>out. generate_supplier_orders nd ps sps ss = Inr out" by blast
next
  fix f
  show "generate_supplier_orders nd ps sps (map (\<lambda>s. s\<lparr>s_is_active := f s\<rparr>) ss) =
               generate_supplier_orders nd ps sps ss"
    by (rule generate_supplier_orders_is_active)
qed

theorem inactive_supplier_not_filtered_witness:
  "\<exists>out. generate_supplier_orders [milk_demand] [milk] [link 2 1 True] [acme, bolt] = Inr out \<and>
      (\<exists>l\<in>set out. so_supplier_code l = ''SUP002'' \<and> so_sku l = ''SKU00001'' \<and>
         so_net_demand l = 70 \<and> so_order_quantity l = 72)"
proof -
  have h: "milk_demand \<in> set [milk_demand]" "0 < nd_net_demand milk_demand" "milk \<in> set [milk]"
    "nd_sku milk_demand = p_sku milk" "link 2 1 True \<in> set [link 2 1 True]"
    "p_product_id milk = sp_product_id (link 2 1 True)" "sp_is_primary_supplier (link 2 1 True)"
    "bolt \<in> set [acme, bolt]" "sp_supplier_id (link 2 1 True) = s_supplier_id bolt"
    "\<not> s_is_active bolt"
    by (simp_all add: example_defs)
  have q: "order_quantity (nd_net_demand milk_demand) (nd_case_size milk_demand) = Inr 72"
    by code_simp
  then have ok: "\<forall>m\<in>set [milk_demand]. 0 < nd_net_demand m \<longrightarrow>
             (\<exists>q. order_quantity (nd_net_demand m) (nd_case_size m) = Inr q)"
    by simp
  note inst = inactive_supplier_not_filtered[OF h]
  from inst ok obtain out where
    out: "generate_supplier_orders [milk_demand] [milk] [link 2 1 True] [acme, bolt] = Inr out"
    by blast
  with inst obtain l where l: "l \<in> set out" "so_supplier_code l = s_supplier_code bolt"
    "so_sku l = nd_sku milk_demand" "so_net_demand l = nd_net_demand milk_demand"
    "order_quantity (nd_net_demand milk_demand) (nd_case_size milk_demand) = Inr (so_order_quantity l)"
    by blast
  from l(5) q have "so_order_quantity l = 72" by simp
  moreover from l(2,3,4) have "so_supplier_code l = ''SUP002''" "so_sku l = ''SKU00001''"
    "so_net_demand l = 70"
    by (simp_all add: example_defs)
  ultimately have "\<exists>l\<in>set out. so_supplier_code l = ''SUP002'' \<and> so_sku l = ''SKU00001'' \<and>
         so_net_demand l = 70 \<and> so_order_quantity l = 72"
    using l(1) by blast
  with out show ?thesis by blast
qed

text \<open>
  The only primary supplier of the SKU is inactive and the net demand is positive, yet no
  line is written: the case size is 0 and the task raises.
\<close>

theorem inactive_supplier_line_lost:
  "\<not> s_is_active bolt \<and> 0 < nd_net_demand (milk_demand\<lparr>nd_case_size := 0\<rparr>) \<and>
   filter (\<lambda>sp. sp_product_id sp = p_product_id milk \<and> sp_is_primary_supplier sp) [link 2 1 True] =
     [link 2 1 True] \<and>
   sp_supplier_id (link 2 1 True) = s_supplier_id bolt \<and>
   generate_supplier_orders [milk_demand\<lparr>nd_case_size := 0\<rparr>] [milk] [link 2 1 True] [acme, bolt] =
     Inl Supplier_order_generation_failed"
  by code_simp

lemma primary_suppliers_linked:
  "primary_suppliers k ps sps ss =
     concat (map (\<lambda>p. if k = p_sku p then linked_suppliers (p_product_id p) sps ss else []) ps)"
  by (simp add: primary_suppliers_def linked_suppliers_def cong: if_cong)

lemma concat_map_if_none:
  "k \<notin> f ` set xs \<Longrightarrow> concat (map (\<lambda>y. if k = f y then H y else []) xs) = []"
  by (induction xs) auto

lemma concat_map_if_single:
  "distinct (map f xs) \<Longrightarrow> x \<in> set xs \<Longrightarrow>
     concat (map (\<lambda>y. if f x = f y then H y else []) xs) = H x"
proof (induction xs)
  case Nil
  then show ?case by simp
next
  case (Cons a xs)
  show ?case
  proof (cases "a = x")
    case True
    then have "f x \<notin> f ` set xs" using Cons.prems by simp
    then have "concat (map (\<lambda>y. if f x = f y then H y else []) xs) = []"
      by (rule concat_map_if_none)
    with True show ?thesis by simp
  next
    case False
    then have x: "x \<in> set xs" using Cons.prems by simp
    have "f a \<notin> f ` set xs" using Cons.prems by simp
    with x have "f x \<noteq> f a" by (metis imageI)
    with x show ?thesis using Cons by simp
  qed
qed

lemma primary_suppliers_of_product:
  assumes "distinct (map p_sku ps)" and "p \<in> set ps"
  shows "primary_suppliers (p_sku p) ps sps ss = linked_suppliers (p_product_id p) sps ss"
  unfolding primary_suppliers_linked using assms by (rule concat_map_if_single)

lemma primary_suppliers_no_product:
  assumes "k \<notin> p_sku ` set ps"
  shows "primary_suppliers k ps sps ss = []"
  unfolding primary_suppliers_linked using assms by (rule concat_map_if_none)

lemma suppliers_with_id:
  assumes "distinct (map s_supplier_id ss)" and "sid \<in> s_supplier_id ` set ss"
  shows "length (concat (map (\<lambda>s. if sid = s_supplier_id s then if b then [s] else [] else []) ss)) =
           (if b then 1 else 0)"
proof -
  from assms(2) obtain s where s: "s \<in> set ss" "sid = s_supplier_id s" by auto
  have "concat (map (\<lambda>y. if s_supplier_id s = s_supplier_id y then if b then [y] else [] else []) ss) =
        (if b then [s] else [])"
    using assms(1) s(1) by (rule concat_map_if_single)
  then show ?thesis unfolding s(2) by simp
qed

lemma length_linked_suppliers:
  assumes "distinct (map s_supplier_id ss)"
    and "\<forall>sp\<in>set sps. sp_supplier_id sp \<in> s_supplier_id ` set ss"
  shows "length (linked_suppliers pid sps ss) =
           length (filter (\<lambda>sp. sp_product_id sp = pid \<and> sp_is_primary_supplier sp) sps)"
  using assms(2) unfolding linked_suppliers_def
  by (induction sps) (auto simp: suppliers_with_id[OF assms(1)])

lemma joins_of_sku:
  assumes "distinct (map nd_sku nd)" and "n \<in> set nd"
  shows "filter (\<lambda>sn. nd_sku (snd sn) = nd_sku n) (supplier_order_joins nd ps sps ss) =
           (if 0 < nd_net_demand n
            then map (\<lambda>s. (s, n)) (primary_suppliers (nd_sku n) ps sps ss) else [])"
proof -
  have "filter (\<lambda>sn. nd_sku (snd sn) = nd_sku n) (supplier_order_joins nd ps sps ss) =
        concat (map (\<lambda>m. if nd_sku n = nd_sku m
                          then if 0 < nd_net_demand m
                               then map (\<lambda>s. (s, m)) (primary_suppliers (nd_sku m) ps sps ss) else []
                          else []) nd)"
    unfolding supplier_order_joins_alt filter_concat
    by (rule arg_cong[where f = concat]) (auto simp: comp_def)
  also have "\<dots> = (if 0 < nd_net_demand n
            then map (\<lambda>s. (s, n)) (primary_suppliers (nd_sku n) ps sps ss) else [])"
    using assms by (rule concat_map_if_single)
  finally show ?thesis .
qed

lemma length_lines_of_sku:
  "length (filter (\<lambda>l. so_sku l = k)
     (sort_key (\<lambda>l. (so_supplier_code l, so_sku l)) (map joined_line joins))) =
   length (filter (\<lambda>sn. nd_sku (snd sn) = k) joins)"
  by (simp add: filter_sort filter_map comp_def joined_line_def supplier_order_line_def)

text \<open>
  Claim C3, as the code has it. The derivation has no check on the number of primary
  links and raises no lookup error. With the keys of the tables (one net-demand row and
  one product per SKU, one supplier row per supplier id, every link naming a supplier
  that exists), whenever the task returns, the number of lines of a SKU with positive net
  demand is the number of primary links of its product: none for no link, several for
  several links. The task returns when the rounding succeeds on every row with positive
  net demand.
\<close>

theorem one_line_per_primary_link:
  assumes "distinct (map nd_sku nd)" and "distinct (map p_sku ps)"
    and "distinct (map s_supplier_id ss)"
    and "\<forall>sp\<in>set sps. sp_supplier_id sp \<in> s_supplier_id ` set ss"
    and "n \<in> set nd" and "0 < nd_net_demand n"
    and "p \<in> set ps" and "nd_sku n = p_sku p"
  shows "(\<forall>out. generate_supplier_orders nd ps sps ss = Inr out \<longrightarrow>
            length (filter (\<lambda>l. so_sku l = nd_sku n) out) =
              length (filter (\<lambda>sp. sp_product_id sp = p_product_id p \<and> sp_is_primary_supplier sp) sps)) \<and>
         ((\<forall>m\<in>set nd. 0 < nd_net_demand m \<longrightarrow>
             (\<exists>q. order_quantity (nd_net_demand m) (nd_case_size m) = Inr q)) \<longrightarrow>
            (\<exists>out. generate_supplier_orders nd ps sps ss = Inr out))"
proof (intro conjI allI impI)
  fix out
  assume "generate_supplier_orders nd ps sps ss = Inr out"
  then have out: "out = sort_key (\<lambda>l. (so_supplier_code l, so_sku l))
                 (map joined_line (supplier_order_joins nd ps sps ss))"
    by (rule generate_supplier_orders_lines(1))
  have "length (filter (\<lambda>l. so_sku l = nd_sku n) out) =
        length (filter (\<lambda>sn. nd_sku (snd sn) = nd_sku n) (supplier_order_joins nd ps sps ss))"
    unfolding out by (rule length_lines_of_sku)
  also have "\<dots> = length (primary_suppliers (nd_sku n) ps sps ss)"
    unfolding joins_of_sku[OF assms(1) assms(5)] using assms(6) by simp
  also have "\<dots> = length (linked_suppliers (p_product_id p) sps ss)"
    unfolding assms(8) primary_suppliers_of_product[OF assms(2) assms(7)] ..
  also have "\<dots> = length (filter (\<lambda>sp. sp_product_id sp = p_product_id p \<and> sp_is_primary_supplier sp) sps)"
    using assms(3) assms(4) by (rule length_linked_suppliers)
  finally show "length (filter (\<lambda>l. so_sku l = nd_sku n) out) =
              length (filter (\<lambda>sp. sp_product_id sp = p_product_id p \<and> sp_is_primary_supplier sp) sps)" .
next
  assume "\<forall>m\<in>set nd. 0 < nd_net_demand m \<longrightarrow>
             (\<exists>q. order_quantity (nd_net_demand m) (nd_case_size m) = Inr q)"
  then have "generate_supplier_orders nd ps sps ss =
           Inr (sort_key (\<lambda>l. (so_supplier_code l, so_sku l))
                 (map joined_line (supplier_order_joins nd ps sps ss)))"
    by (rule generate_supplier_orders_returns)
  then show "\<exists>out. generate_supplier_orders nd ps sps ss = Inr out" by blast
qed

theorem one_line_per_primary_link_witness:
  "\<exists>out. generate_supplier_orders [milk_demand, tea_demand] [milk, tea]
            [link 2 1 True, link 1 1 True, link 2 2 False] [acme, bolt] = Inr out \<and>
         length (filter (\<lambda>l. so_sku l = ''SKU00001'') out) = 2"
proof -
  have h: "distinct (map nd_sku [milk_demand, tea_demand])" "distinct (map p_sku [milk, tea])"
    "distinct (map s_supplier_id [acme, bolt])"
    "\<forall>sp\<in>set [link 2 1 True, link 1 1 True, link 2 2 False].
        sp_supplier_id sp \<in> s_supplier_id ` set [acme, bolt]"
    "milk_demand \<in> set [milk_demand, tea_demand]" "0 < nd_net_demand milk_demand"
    "milk \<in> set [milk, tea]" "nd_sku milk_demand = p_sku milk"
    by (simp_all add: example_defs)
  have "order_quantity (nd_net_demand milk_demand) (nd_case_size milk_demand) = Inr 72"
    "order_quantity (nd_net_demand tea_demand) (nd_case_size tea_demand) = Inr 48"
    by code_simp+
  then have ok: "\<forall>m\<in>set [milk_demand, tea_demand]. 0 < nd_net_demand m \<longrightarrow>
             (\<exists>q. order_quantity (nd_net_demand m) (nd_case_size m) = Inr q)"
    by simp
  note inst = one_line_per_primary_link[OF h]
  from inst ok obtain out where out: "generate_supplier_orders [milk_demand, tea_demand] [milk, tea]
            [link 2 1 True, link 1 1 True, link 2 2 False] [acme, bolt] = Inr out"
    by blast
  with inst have len: "length (filter (\<lambda>l. so_sku l = nd_sku milk_demand) out) =
        length (filter (\<lambda>sp. sp_product_id sp = p_product_id milk \<and> sp_is_primary_supplier sp)
                 [link 2 1 True, link 1 1 True, link 2 2 False])"
    by blast
  have sku: "nd_sku milk_demand = ''SKU00001''"
    by (simp add: example_defs)
  have "length (filter (\<lambda>sp. sp_product_id sp = p_product_id milk \<and> sp_is_primary_supplier sp)
                 [link 2 1 True, link 1 1 True, link 2 2 False]) = 2"
    by (simp add: example_defs)
  with len have "length (filter (\<lambda>l. so_sku l = ''SKU00001'') out) = 2"
    unfolding sku by (rule trans)
  with out show ?thesis
    by - (intro exI[of _ out] conjI; assumption)
qed

text \<open>
  At these tables the first SKU has two primary links and gets two lines, the second has
  positive net demand (30), a link that is not primary and therefore no line; nothing is
  raised and the list of findings is empty.
\<close>

theorem ambiguous_supplier_not_detected:
  "length (filter (\<lambda>sp. sp_product_id sp = p_product_id milk \<and> sp_is_primary_supplier sp)
             [link 2 1 True, link 1 1 True, link 2 2 False]) = 2 \<and>
   length (filter (\<lambda>sp. sp_product_id sp = p_product_id tea \<and> sp_is_primary_supplier sp)
             [link 2 1 True, link 1 1 True, link 2 2 False]) = 0 \<and>
   calculate_net_demand [milk, tea] [milk_rule, tea_rule] [milk_order] [milk_stock] =
     Inr [milk_demand, tea_demand] \<and>
   0 < nd_net_demand milk_demand \<and> 0 < nd_net_demand tea_demand \<and>
   procurement_pipeline [milk, tea] [milk_rule, tea_rule] [milk_order] [milk_stock]
     [link 2 1 True, link 1 1 True, link 2 2 False] [acme, bolt] =
     Inr ([], [milk_line, milk_line_bolt])"
  by code_simp

lemma distinct_concat_tagged:
  assumes "distinct (map f xs)"
    and "\<And>x. x \<in> set xs \<Longrightarrow> distinct (G x)"
    and "\<And>x y. x \<in> set xs \<Longrightarrow> y \<in> set (G x) \<Longrightarrow> tag y = f x"
  shows "distinct (concat (map G xs))"
  using assms
proof (induction xs)
  case Nil
  then show ?case by simp
next
  case (Cons a xs)
  have rest: "distinct (concat (map G xs))"
    using Cons.prems by (intro Cons.IH) simp_all
  have "set (G a) \<inter> set (concat (map G xs)) = {}"
  proof (rule ccontr)
    assume "set (G a) \<inter> set (concat (map G xs)) \<noteq> {}"
    then obtain y x where y: "y \<in> set (G a)" "x \<in> set xs" "y \<in> set (G x)" by auto
    from Cons.prems(3)[of a y] y(1) have "tag y = f a" by simp
    moreover from Cons.prems(3)[of x y] y(2,3) have "tag y = f x" by simp
    moreover have "f a \<notin> f ` set xs" using Cons.prems(1) by simp
    ultimately show False using y(2) by (metis imageI)
  qed
  moreover have "distinct (G a)" using Cons.prems(2) by simp
  ultimately show ?case using rest by simp
qed

lemma suppliers_with_id_filter:
  "concat (map (\<lambda>s. if c s then if b then [s] else [] else []) ss) = filter (\<lambda>s. c s \<and> b) ss"
  by (induction ss) simp_all

lemma distinct_linked_suppliers:
  assumes "distinct ss"
    and "distinct (map (\<lambda>sp. (sp_supplier_id sp, sp_product_id sp)) sps)"
  shows "distinct (linked_suppliers pid sps ss)"
  unfolding linked_suppliers_def
proof (rule distinct_concat_tagged[where f = "\<lambda>sp. (sp_supplier_id sp, sp_product_id sp)"
        and tag = "\<lambda>s. (s_supplier_id s, pid)"])
  show "distinct (map (\<lambda>sp. (sp_supplier_id sp, sp_product_id sp)) sps)" by fact
  show "distinct (if pid = sp_product_id sp
          then concat (map (\<lambda>s. if sp_supplier_id sp = s_supplier_id s
                                 then if sp_is_primary_supplier sp then [s] else [] else []) ss)
          else [])" for sp
    using assms(1) by (simp add: suppliers_with_id_filter)
  show "(s_supplier_id y, pid) = (sp_supplier_id sp, sp_product_id sp)"
    if "y \<in> set (if pid = sp_product_id sp
          then concat (map (\<lambda>s. if sp_supplier_id sp = s_supplier_id s
                                 then if sp_is_primary_supplier sp then [s] else [] else []) ss)
          else [])" for sp y
    using that by (auto simp: suppliers_with_id_filter split: if_splits)
qed

lemma set_linked_suppliers: "set (linked_suppliers pid sps ss) \<subseteq> set ss"
  unfolding linked_suppliers_def by (auto split: if_splits)

lemma distinct_primary_supplier_codes:
  assumes "distinct (map p_sku ps)" and "distinct (map s_supplier_code ss)"
    and "distinct (map (\<lambda>sp. (sp_supplier_id sp, sp_product_id sp)) sps)"
  shows "distinct (map s_supplier_code (primary_suppliers k ps sps ss))"
proof (cases "k \<in> p_sku ` set ps")
  case True
  then obtain p where p: "p \<in> set ps" "k = p_sku p" by auto
  have eq: "primary_suppliers k ps sps ss = linked_suppliers (p_product_id p) sps ss"
    unfolding p(2) using assms(1) p(1) by (rule primary_suppliers_of_product)
  have "distinct ss" "inj_on s_supplier_code (set ss)"
    using assms(2) by (simp_all add: distinct_map)
  then have "distinct (linked_suppliers (p_product_id p) sps ss)"
    "inj_on s_supplier_code (set (linked_suppliers (p_product_id p) sps ss))"
    using assms(3) set_linked_suppliers[of "p_product_id p" sps ss]
    by (auto intro: distinct_linked_suppliers inj_on_subset)
  then show ?thesis unfolding eq by (simp add: distinct_map)
next
  case False
  then show ?thesis by (simp add: primary_suppliers_no_product)
qed

lemma distinct_join_keys:
  assumes "distinct (map nd_sku nd)" and "distinct (map p_sku ps)"
    and "distinct (map s_supplier_code ss)"
    and "distinct (map (\<lambda>sp. (sp_supplier_id sp, sp_product_id sp)) sps)"
  shows "distinct (map (\<lambda>sn. (s_supplier_code (fst sn), nd_sku (snd sn)))
                    (supplier_order_joins nd ps sps ss))"
proof -
  have eq: "map (\<lambda>sn. (s_supplier_code (fst sn), nd_sku (snd sn))) (supplier_order_joins nd ps sps ss) =
      concat (map (\<lambda>n. if 0 < nd_net_demand n
                        then map (\<lambda>s. (s_supplier_code s, nd_sku n))
                               (primary_suppliers (nd_sku n) ps sps ss)
                        else []) nd)"
    unfolding supplier_order_joins_alt by (simp add: map_concat_if comp_def cong: if_cong)
  show ?thesis
    unfolding eq
  proof (rule distinct_concat_tagged[where f = nd_sku and tag = snd])
    show "distinct (map nd_sku nd)" by fact
    show "distinct (if 0 < nd_net_demand n
                        then map (\<lambda>s. (s_supplier_code s, nd_sku n))
                               (primary_suppliers (nd_sku n) ps sps ss)
                        else [])" for n
    proof -
      have "distinct (map s_supplier_code (primary_suppliers (nd_sku n) ps sps ss))"
        using assms(2,3,4) by (rule distinct_primary_supplier_codes)
      then have "distinct (map (\<lambda>s. (s_supplier_code s, nd_sku n))
                               (primary_suppliers (nd_sku n) ps sps ss))"
        by (simp add: distinct_map inj_on_def)
      then show ?thesis by simp
    qed
    show "snd y = nd_sku n"
      if "y \<in> set (if 0 < nd_net_demand n
                        then map (\<lambda>s. (s_supplier_code s, nd_sku n))
                               (primary_suppliers (nd_sku n) ps sps ss)
                        else [])" for n y
      using that by (auto split: if_splits)
  qed
qed

lemma distinct_line_keys:
  assumes "distinct (map (\<lambda>sn. (s_supplier_code (fst sn), nd_sku (snd sn))) joins)"
  shows "distinct (map (\<lambda>l. (so_supplier_code l, so_sku l))
           (sort_key (\<lambda>l. (so_supplier_code l, so_sku l)) (map joined_line joins)))"
proof -
  have "mset (map (\<lambda>l. (so_supplier_code l, so_sku l))
           (sort_key (\<lambda>l. (so_supplier_code l, so_sku l)) (map joined_line joins))) =
        mset (map (\<lambda>sn. (s_supplier_code (fst sn), nd_sku (snd sn))) joins)"
    by (simp add: image_mset.compositionality comp_def joined_line_def supplier_order_line_def)
  from mset_eq_imp_distinct_iff[OF this] assms show ?thesis by blast
qed

lemma supplier_order_joins_no_demand:
  assumes "\<forall>n\<in>set nd. nd_net_demand n \<le> 0"
  shows "supplier_order_joins nd ps sps ss = []"
  using assms unfolding supplier_order_joins_alt by (induction nd) simp_all

text \<open>
  Claim C6, as the code has it. When no net-demand row is positive the task returns the
  empty output. Whenever the task returns, the SKUs of its output are exactly the SKUs
  with positive net demand that have a primary link to a supplier row; a SKU with positive
  net demand and no such link has no line. The output is sorted by
  \<open>(supplier_code, sku)\<close>, and under the keys of the tables no two lines have the same
  \<open>(supplier_code, sku)\<close>. The task returns when the rounding succeeds on every row with
  positive net demand.
\<close>

theorem supplier_orders_output:
  "((\<forall>n\<in>set nd. nd_net_demand n \<le> 0) \<longrightarrow> generate_supplier_orders nd ps sps ss = Inr []) \<and>
   (\<forall>out. generate_supplier_orders nd ps sps ss = Inr out \<longrightarrow>
         (\<forall>k. k \<in> so_sku ` set out \<longleftrightarrow>
            (\<exists>n\<in>set nd. nd_sku n = k \<and> 0 < nd_net_demand n \<and>
               (\<exists>p\<in>set ps. \<exists>sp\<in>set sps. \<exists>s\<in>set ss.
                  k = p_sku p \<and> p_product_id p = sp_product_id sp \<and>
                  sp_is_primary_supplier sp \<and> sp_supplier_id sp = s_supplier_id s))) \<and>
         sorted (map (\<lambda>l. (so_supplier_code l, so_sku l)) out) \<and>
         (distinct (map nd_sku nd) \<and> distinct (map p_sku ps) \<and>
          distinct (map s_supplier_code ss) \<and>
          distinct (map (\<lambda>sp. (sp_supplier_id sp, sp_product_id sp)) sps)
            \<longrightarrow> distinct (map (\<lambda>l. (so_supplier_code l, so_sku l)) out))) \<and>
   ((\<forall>m\<in>set nd. 0 < nd_net_demand m \<longrightarrow>
       (\<exists>q. order_quantity (nd_net_demand m) (nd_case_size m) = Inr q)) \<longrightarrow>
      (\<exists>out. generate_supplier_orders nd ps sps ss = Inr out))"
proof (intro conjI impI allI)
  assume "\<forall>n\<in>set nd. nd_net_demand n \<le> 0"
  then have "supplier_order_joins nd ps sps ss = []"
    by (rule supplier_order_joins_no_demand)
  then show "generate_supplier_orders nd ps sps ss = Inr []"
    unfolding generate_supplier_orders_eq by simp
next
  assume "\<forall>m\<in>set nd. 0 < nd_net_demand m \<longrightarrow>
             (\<exists>q. order_quantity (nd_net_demand m) (nd_case_size m) = Inr q)"
  then have "generate_supplier_orders nd ps sps ss =
           Inr (sort_key (\<lambda>l. (so_supplier_code l, so_sku l))
                 (map joined_line (supplier_order_joins nd ps sps ss)))"
    by (rule generate_supplier_orders_returns)
  then show "\<exists>out. generate_supplier_orders nd ps sps ss = Inr out" by blast
next
  let ?joins = "supplier_order_joins nd ps sps ss"
  fix out
  assume "generate_supplier_orders nd ps sps ss = Inr out"
  then have out: "out = sort_key (\<lambda>l. (so_supplier_code l, so_sku l)) (map joined_line ?joins)"
    by (rule generate_supplier_orders_lines(1))
  {
    fix k
    have "k \<in> so_sku ` set out \<longleftrightarrow> (\<exists>s n. (s, n) \<in> set ?joins \<and> nd_sku n = k)"
      unfolding out by (force simp: joined_line_def supplier_order_line_def image_iff)
    also have "\<dots> \<longleftrightarrow> (\<exists>n\<in>set nd. nd_sku n = k \<and> 0 < nd_net_demand n \<and>
               (\<exists>p\<in>set ps. \<exists>sp\<in>set sps. \<exists>s\<in>set ss.
                  k = p_sku p \<and> p_product_id p = sp_product_id sp \<and>
                  sp_is_primary_supplier sp \<and> sp_supplier_id sp = s_supplier_id s))"
      unfolding in_supplier_order_joins by blast
    finally show "k \<in> so_sku ` set out \<longleftrightarrow>
            (\<exists>n\<in>set nd. nd_sku n = k \<and> 0 < nd_net_demand n \<and>
               (\<exists>p\<in>set ps. \<exists>sp\<in>set sps. \<exists>s\<in>set ss.
                  k = p_sku p \<and> p_product_id p = sp_product_id sp \<and>
                  sp_is_primary_supplier sp \<and> sp_supplier_id sp = s_supplier_id s))" .
  }
  show "sorted (map (\<lambda>l. (so_supplier_code l, so_sku l)) out)"
    unfolding out by (rule sorted_sort_key)
  assume "distinct (map nd_sku nd) \<and> distinct (map p_sku ps) \<and>
          distinct (map s_supplier_code ss) \<and>
          distinct (map (\<lambda>sp. (sp_supplier_id sp, sp_product_id sp)) sps)"
  then show "distinct (map (\<lambda>l. (so_supplier_code l, so_sku l)) out)"
    unfolding out by (intro distinct_line_keys distinct_join_keys) simp_all
qed

theorem supplier_orders_output_witness:
  "\<exists>out. generate_supplier_orders [milk_demand, tea_demand] [milk, tea]
            [link 2 1 True, link 1 2 True] [acme, bolt] = Inr out \<and>
         ''SKU00001'' \<in> so_sku ` set out \<and> ''SKU00003'' \<notin> so_sku ` set out \<and>
         sorted (map (\<lambda>l. (so_supplier_code l, so_sku l)) out) \<and>
         distinct (map (\<lambda>l. (so_supplier_code l, so_sku l)) out)"
proof -
  have "order_quantity (nd_net_demand milk_demand) (nd_case_size milk_demand) = Inr 72"
    "order_quantity (nd_net_demand tea_demand) (nd_case_size tea_demand) = Inr 48"
    by code_simp+
  then have ok: "\<forall>m\<in>set [milk_demand, tea_demand]. 0 < nd_net_demand m \<longrightarrow>
             (\<exists>q. order_quantity (nd_net_demand m) (nd_case_size m) = Inr q)"
    by simp
  have keys: "distinct (map nd_sku [milk_demand, tea_demand]) \<and> distinct (map p_sku [milk, tea]) \<and>
          distinct (map s_supplier_code [acme, bolt]) \<and>
          distinct (map (\<lambda>sp. (sp_supplier_id sp, sp_product_id sp)) [link 2 1 True, link 1 2 True])"
    by (simp add: example_defs)
  note inst = supplier_orders_output[of "[milk_demand, tea_demand]" "[milk, tea]"
      "[link 2 1 True, link 1 2 True]" "[acme, bolt]"]
  from inst ok
  obtain out where out: "generate_supplier_orders [milk_demand, tea_demand] [milk, tea]
            [link 2 1 True, link 1 2 True] [acme, bolt] = Inr out"
    by blast
  with inst have skus: "\<forall>k. k \<in> so_sku ` set out \<longleftrightarrow>
            (\<exists>n\<in>set [milk_demand, tea_demand]. nd_sku n = k \<and> 0 < nd_net_demand n \<and>
               (\<exists>p\<in>set [milk, tea]. \<exists>sp\<in>set [link 2 1 True, link 1 2 True]. \<exists>s\<in>set [acme, bolt].
                  k = p_sku p \<and> p_product_id p = sp_product_id sp \<and>
                  sp_is_primary_supplier sp \<and> sp_supplier_id sp = s_supplier_id s))"
    and srt: "sorted (map (\<lambda>l. (so_supplier_code l, so_sku l)) out)"
    and dst: "distinct (map nd_sku [milk_demand, tea_demand]) \<and> distinct (map p_sku [milk, tea]) \<and>
          distinct (map s_supplier_code [acme, bolt]) \<and>
          distinct (map (\<lambda>sp. (sp_supplier_id sp, sp_product_id sp)) [link 2 1 True, link 1 2 True])
            \<longrightarrow> distinct (map (\<lambda>l. (so_supplier_code l, so_sku l)) out)"
    by blast+
  from skus have "''SKU00001'' \<in> so_sku ` set out \<longleftrightarrow>
            (\<exists>n\<in>set [milk_demand, tea_demand]. nd_sku n = ''SKU00001'' \<and> 0 < nd_net_demand n \<and>
               (\<exists>p\<in>set [milk, tea]. \<exists>sp\<in>set [link 2 1 True, link 1 2 True]. \<exists>s\<in>set [acme, bolt].
                  ''SKU00001'' = p_sku p \<and> p_product_id p = sp_product_id sp \<and>
                  sp_is_primary_supplier sp \<and> sp_supplier_id sp = s_supplier_id s))"
    by (rule spec)
  then have 1: "''SKU00001'' \<in> so_sku ` set out"
    by (simp add: example_defs)
  from skus have "''SKU00003'' \<in> so_sku ` set out \<longleftrightarrow>
            (\<exists>n\<in>set [milk_demand, tea_demand]. nd_sku n = ''SKU00003'' \<and> 0 < nd_net_demand n \<and>
               (\<exists>p\<in>set [milk, tea]. \<exists>sp\<in>set [link 2 1 True, link 1 2 True]. \<exists>s\<in>set [acme, bolt].
                  ''SKU00003'' = p_sku p \<and> p_product_id p = sp_product_id sp \<and>
                  sp_is_primary_supplier sp \<and> sp_supplier_id sp = s_supplier_id s))"
    by (rule spec)
  then have 2: "''SKU00003'' \<notin> so_sku ` set out"
    by (simp add: example_defs)
  from dst keys have 3: "distinct (map (\<lambda>l. (so_supplier_code l, so_sku l)) out)"
    by (rule mp)
  from out 1 2 srt 3 show ?thesis
    by - (intro exI[of _ out] conjI; assumption)
qed

text \<open>
  The second SKU has net demand 30 and only a link that is not primary: the output is
  empty, so it does not hold a line for every SKU with positive net demand.
\<close>

theorem positive_demand_without_line:
  "calculate_net_demand [tea] [tea_rule] [] [] = Inr [tea_demand] \<and>
   0 < nd_net_demand tea_demand \<and>
   generate_supplier_orders [tea_demand] [tea] [link 2 2 False] [acme, bolt] = Inr []"
  by code_simp

text \<open>
  Claim C5, as the code has it. No task validates the case size: the division of the
  rounding step is unguarded. When a row with case size 0 reaches the rounding (positive
  net demand, a primary link and its supplier row), the division by zero fails the query
  and the supplier-order task raises its exception. A case size below 0 is not rejected
  either: the lines of an output that is returned have a case size other than 0, and that
  is all.
\<close>

theorem case_size_not_validated:
  "((\<exists>n\<in>set nd. nd_case_size n = 0 \<and> 0 < nd_net_demand n \<and>
         (\<exists>p\<in>set ps. \<exists>sp\<in>set sps. \<exists>s\<in>set ss.
            nd_sku n = p_sku p \<and> p_product_id p = sp_product_id sp \<and>
            sp_is_primary_supplier sp \<and> sp_supplier_id sp = s_supplier_id s)) \<longrightarrow>
      generate_supplier_orders nd ps sps ss = Inl Supplier_order_generation_failed) \<and>
   (\<forall>out. generate_supplier_orders nd ps sps ss = Inr out \<longrightarrow>
      (\<forall>l\<in>set out. so_case_size l \<noteq> 0))"
proof (intro conjI allI impI ballI)
  assume "\<exists>n\<in>set nd. nd_case_size n = 0 \<and> 0 < nd_net_demand n \<and>
         (\<exists>p\<in>set ps. \<exists>sp\<in>set sps. \<exists>s\<in>set ss.
            nd_sku n = p_sku p \<and> p_product_id p = sp_product_id sp \<and>
            sp_is_primary_supplier sp \<and> sp_supplier_id sp = s_supplier_id s)"
  then obtain s n where "(s, n) \<in> set (supplier_order_joins nd ps sps ss)" "nd_case_size n = 0"
    unfolding in_supplier_order_joins by blast
  then have "\<exists>sn\<in>set (supplier_order_joins nd ps sps ss). rounding_fails (snd sn)"
    using rounding_fails_zero by force
  then show "generate_supplier_orders nd ps sps ss = Inl Supplier_order_generation_failed"
    unfolding generate_supplier_orders_eq by simp
next
  fix out l
  assume out: "generate_supplier_orders nd ps sps ss = Inr out" and l: "l \<in> set out"
  from generate_supplier_orders_lines(2)[OF out] l
  obtain sn where sn: "sn \<in> set (supplier_order_joins nd ps sps ss)" "l = joined_line sn"
    by auto
  from generate_supplier_orders_lines(3)[OF out] sn(1)
  have "\<not> rounding_fails (snd sn)" by blast
  then have "nd_case_size (snd sn) \<noteq> 0"
    using rounding_fails_zero by blast
  then show "so_case_size l \<noteq> 0"
    unfolding sn(2) by (simp add: joined_line_def supplier_order_line_def)
qed

theorem case_size_not_validated_witness:
  "generate_supplier_orders [milk_demand\<lparr>nd_case_size := 0\<rparr>] [milk] [link 1 1 True] [acme] =
     Inl Supplier_order_generation_failed"
proof -
  have "\<exists>n\<in>set [milk_demand\<lparr>nd_case_size := 0\<rparr>]. nd_case_size n = 0 \<and> 0 < nd_net_demand n \<and>
         (\<exists>p\<in>set [milk]. \<exists>sp\<in>set [link 1 1 True]. \<exists>s\<in>set [acme].
            nd_sku n = p_sku p \<and> p_product_id p = sp_product_id sp \<and>
            sp_is_primary_supplier sp \<and> sp_supplier_id sp = s_supplier_id s)"
    by (simp add: example_defs)
  with case_size_not_validated[of "[milk_demand\<lparr>nd_case_size := 0\<rparr>]" "[milk]" "[link 1 1 True]" "[acme]"]
  show ?thesis by blast
qed

text \<open>
  A rule with case size 0 passes the quality task with no finding and makes the run fail
  in the supplier-order task; a rule with case size \<open>-12\<close> passes and is rounded to 60
  units for a net demand of 70.
\<close>

theorem zero_case_size_not_rejected:
  "r_case_size (milk_rule\<lparr>r_case_size := 0\<rparr>) = 0 \<and>
   validate_data_quality [milk] [link 1 1 True] [milk_order] = Inr [] \<and>
   procurement_pipeline [milk] [milk_rule\<lparr>r_case_size := 0\<rparr>] [milk_order] [milk_stock]
     [link 1 1 True] [acme] = Inl Supplier_order_generation_failed \<and>
   procurement_pipeline [milk] [milk_rule\<lparr>r_case_size := - 12\<rparr>] [milk_order] [milk_stock]
     [link 1 1 True] [acme] =
     Inr ([], [milk_line\<lparr>so_case_size := - 12, so_order_quantity := 60\<rparr>])"
  by code_simp

section \<open>The data-quality task\<close>

declare show_nat.simps [simp del]

lemma of_char_digit_char: "d < 10 \<Longrightarrow> (of_char (digit_char d) :: nat) = 48 + d"
  by (simp add: digit_char_def)

lemma digit_char_not_dquote: "d < 10 \<Longrightarrow> digit_char d \<noteq> dquote"
proof
  assume "d < 10" and "digit_char d = dquote"
  then have "(of_char dquote :: nat) = 48 + d"
    using of_char_digit_char[of d] by simp
  then show False by (simp add: dquote_def)
qed

lemma digit_char_zero: "d < 10 \<Longrightarrow> digit_char d = CHR ''0'' \<longleftrightarrow> d = 0"
proof
  assume "d < 10" and "digit_char d = CHR ''0''"
  then have "(of_char (CHR ''0'') :: nat) = 48 + d"
    using of_char_digit_char[of d] by simp
  then show "d = 0" by simp
next
  assume "d = 0"
  then show "digit_char d = CHR ''0''" by (simp add: digit_char_def) code_simp
qed

lemma show_nat_digits: "dquote \<notin> set (show_nat n)"
proof (induction n rule: show_nat.induct)
  case (1 n)
  show ?case
  proof (cases "n < 10")
    case True
    then show ?thesis
      using digit_char_not_dquote[of n] by (subst show_nat.simps) auto
  next
    case False
    have "n mod 10 < 10" by simp
    then have "digit_char (n mod 10) \<noteq> dquote" by (rule digit_char_not_dquote)
    with False 1 show ?thesis
      by (subst show_nat.simps) auto
  qed
qed

lemma show_nat_not_Nil: "show_nat n \<noteq> []"
  by (subst show_nat.simps) simp

lemma show_nat_zero: "show_nat n = ''0'' \<longleftrightarrow> n = 0"
proof (cases "n < 10")
  case True
  then show ?thesis
    using digit_char_zero[of n] by (subst show_nat.simps) simp
next
  case False
  have "length (show_nat n) \<ge> 2"
    using False show_nat_not_Nil[of "n div 10"]
    by (subst show_nat.simps) (cases "show_nat (n div 10)"; simp)
  with False show ?thesis by auto
qed

lemma no_sublist_without_dquote:
  assumes "dquote \<notin> set ds"
  shows "\<not> sublist [dquote, CHR ''0'', dquote] (ds @ [dquote, newline])"
  using assms by (induction ds) (auto simp: sublist_Cons_right dquote_def newline_def)

lemma zero_count_in_stdout:
  "sublist [dquote, CHR ''0'', dquote] (csv_output [[show_nat n]]) \<longleftrightarrow> n = 0"
proof -
  have out: "csv_output [[show_nat n]] = dquote # show_nat n @ [dquote, newline]"
    by (simp add: csv_output_def)
  have "sublist [dquote, CHR ''0'', dquote] (dquote # show_nat n @ [dquote, newline]) \<longleftrightarrow>
        prefix [CHR ''0'', dquote] (show_nat n @ [dquote, newline])"
    using no_sublist_without_dquote[OF show_nat_digits, of n]
    by (simp add: sublist_Cons_right)
  also have "\<dots> \<longleftrightarrow> show_nat n = ''0''"
  proof (cases "show_nat n")
    case Nil
    then show ?thesis using show_nat_not_Nil by simp
  next
    case (Cons c cs)
    have "dquote \<notin> set cs" using show_nat_digits[of n] Cons by simp
    then have "prefix [dquote] (cs @ [dquote, newline]) \<longleftrightarrow> cs = []"
      by (cases cs) auto
    with Cons show ?thesis by auto
  qed
  also have "\<dots> \<longleftrightarrow> n = 0" by (rule show_nat_zero)
  finally show ?thesis unfolding out .
qed

lemma unmapped_skus_query_zero:
  "unmapped_skus_query ps sps = 0 \<longleftrightarrow>
     filter (\<lambda>p. p_is_active p \<and> \<not> (\<exists>sp\<in>set sps. sp_product_id sp = p_product_id p)) ps = []"
proof -
  have lj: "(\<exists>x\<in>set (left_join c t). is_null x) \<longleftrightarrow> filter c t = []" for c and t :: "'b list"
    by (cases "filter c t") (auto simp: left_join_def is_null_def)
  have "unmapped_skus_query ps sps = 0 \<longleftrightarrow>
        (\<forall>p\<in>set ps. \<not> (p_is_active p \<and>
           (\<exists>x\<in>set (left_join (\<lambda>sp. p_product_id p = sp_product_id sp) sps). is_null x)))"
    unfolding unmapped_skus_query_def by (auto split: if_splits)
  also have "\<dots> \<longleftrightarrow> (\<forall>p\<in>set ps. \<not> (p_is_active p \<and>
           filter (\<lambda>sp. p_product_id p = sp_product_id sp) sps = []))"
    unfolding lj ..
  also have "\<dots> \<longleftrightarrow>
     filter (\<lambda>p. p_is_active p \<and> \<not> (\<exists>sp\<in>set sps. sp_product_id sp = p_product_id p)) ps = []"
    by (simp add: filter_empty_conv) (metis (full_types))
  finally show ?thesis .
qed

lemma validate_data_quality_eq:
  "validate_data_quality ps sps os =
     Inr ((if unmapped_skus_query ps sps = 0 then []
           else [''WARNING: Products without supplier mappings detected'']) @
          (if length (py_split newline (py_strip
                (csv_output (map (\<lambda>row. [fst row, show_int (snd row)]) (demand_spike_query os))))) > 1
           then [''INFO: Abnormal demand spike detected for some SKUs''] else []))"
  by (simp add: validate_data_quality_def zero_count_in_stdout Let_def)

text \<open>
  Claim C7, as the code has it. The quality task always returns. Its list of findings
  holds the warning exactly when some active product has no supplier link at all, primary
  or not: the query joins on the product id alone. Whatever the findings are, the run
  goes on, and its output is what the supplier-order task makes of the net-demand table.
\<close>

theorem unmapped_sku_warning:
  "\<exists>fs. validate_data_quality ps sps os = Inr fs \<and>
     (''WARNING: Products without supplier mappings detected'' \<in> set fs \<longleftrightarrow>
        0 < length (filter (\<lambda>p. p_is_active p \<and>
                      \<not> (\<exists>sp\<in>set sps. sp_product_id sp = p_product_id p)) ps)) \<and>
     procurement_pipeline ps rs os sts sps ss =
       (case generate_supplier_orders (net_demand_query ps rs os sts) ps sps ss of
          Inl e \<Rightarrow> Inl e
        | Inr out \<Rightarrow> Inr (fs, out))"
proof -
  let ?warn = "if unmapped_skus_query ps sps = 0 then []
           else [''WARNING: Products without supplier mappings detected'']"
  let ?info = "if length (py_split newline (py_strip
                (csv_output (map (\<lambda>row. [fst row, show_int (snd row)]) (demand_spike_query os))))) > 1
           then [''INFO: Abnormal demand spike detected for some SKUs''] else []"
  have ret: "validate_data_quality ps sps os = Inr (?warn @ ?info)"
    by (rule validate_data_quality_eq)
  have "''WARNING: Products without supplier mappings detected'' \<in> set (?warn @ ?info) \<longleftrightarrow>
        unmapped_skus_query ps sps \<noteq> 0"
    by simp
  also have "\<dots> \<longleftrightarrow> 0 < length (filter (\<lambda>p. p_is_active p \<and>
                      \<not> (\<exists>sp\<in>set sps. sp_product_id sp = p_product_id p)) ps)"
    unfolding unmapped_skus_query_zero by simp
  finally have warn: "''WARNING: Products without supplier mappings detected'' \<in> set (?warn @ ?info) \<longleftrightarrow>
        0 < length (filter (\<lambda>p. p_is_active p \<and>
                      \<not> (\<exists>sp\<in>set sps. sp_product_id sp = p_product_id p)) ps)" .
  have run: "procurement_pipeline ps rs os sts sps ss =
       (case generate_supplier_orders (net_demand_query ps rs os sts) ps sps ss of
          Inl e \<Rightarrow> Inl e
        | Inr out \<Rightarrow> Inr (?warn @ ?info, out))"
    unfolding procurement_pipeline_def ret calculate_net_demand_eq by simp
  from ret warn run show ?thesis
    by - (intro exI[of _ "?warn @ ?info"] conjI; assumption)
qed

theorem unmapped_sku_warning_witness:
  "\<exists>fs. validate_data_quality [milk, tea] [link 1 1 True] [] = Inr fs \<and>
     ''WARNING: Products without supplier mappings detected'' \<in> set fs"
proof -
  from unmapped_sku_warning[of "[milk, tea]" "[link 1 1 True]" "[]" "[]" "[]" "[]"]
  obtain fs where fs: "validate_data_quality [milk, tea] [link 1 1 True] [] = Inr fs"
    and w: "''WARNING: Products without supplier mappings detected'' \<in> set fs \<longleftrightarrow>
        0 < length (filter (\<lambda>p. p_is_active p \<and>
                      \<not> (\<exists>sp\<in>set [link 1 1 True]. sp_product_id sp = p_product_id p)) [milk, tea])"
    by blast
  have "0 < length (filter (\<lambda>p. p_is_active p \<and>
                      \<not> (\<exists>sp\<in>set [link 1 1 True]. sp_product_id sp = p_product_id p)) [milk, tea])"
    by (simp add: example_defs)
  with w have "''WARNING: Products without supplier mappings detected'' \<in> set fs" by (rule iffD2)
  with fs show ?thesis by - (intro exI[of _ fs] conjI; assumption)
qed

text \<open>
  An active product whose only link is not primary counts as unmapped in the words of the
  specification, and the task reports nothing.
\<close>

theorem non_primary_link_hides_unmapped_sku:
  "spec_unmapped_count [tea] [link 2 2 False] = 1 \<and>
   validate_data_quality [tea] [link 2 2 False] [] = Inr []"
  by code_simp

subsection \<open>The demand-spike check\<close>

lemma py_split_not_Nil: "py_split sep s \<noteq> []"
  by (induction s) (auto split: list.splits)

lemma length_py_split: "length (py_split sep s) = Suc (count_list s sep)"
  using py_split_not_Nil[of sep]
  by (induction s) (auto split: list.splits)

lemma py_strip_quoted:
  "py_strip (dquote # t @ [dquote, newline]) = dquote # t @ [dquote]"
  by (simp add: py_strip_def py_isspace_def dquote_def newline_def)

lemma digit_char_not_newline: "d < 10 \<Longrightarrow> digit_char d \<noteq> newline"
proof
  assume "d < 10" and "digit_char d = newline"
  then have "(of_char newline :: nat) = 48 + d"
    using of_char_digit_char[of d] by simp
  then show False by (simp add: newline_def)
qed

lemma show_nat_no_newline: "newline \<notin> set (show_nat n)"
proof (induction n rule: show_nat.induct)
  case (1 n)
  show ?case
  proof (cases "n < 10")
    case True
    then show ?thesis
      using digit_char_not_newline[of n] by (subst show_nat.simps) auto
  next
    case False
    have "n mod 10 < 10" by simp
    then have "digit_char (n mod 10) \<noteq> newline" by (rule digit_char_not_newline)
    with False 1 show ?thesis
      by (subst show_nat.simps) auto
  qed
qed

lemma show_int_no_newline: "newline \<notin> set (show_int i)"
  using show_nat_no_newline by (simp add: show_int_def newline_def)

lemma count_list_0: "x \<notin> set xs \<Longrightarrow> count_list xs x = 0"
  by (simp add: count_list_0_iff)

lemma csv_line_two:
  "csv_line [k, q] = dquote # (k @ [dquote, CHR '','', dquote] @ q) @ [dquote, newline]"
  by simp

lemma count_newline_csv_line:
  assumes "newline \<notin> set k"
  shows "count_list (csv_line [k, show_int i]) newline = 1"
  using assms show_int_no_newline[of i]
  by (simp add: count_list_0 dquote_def newline_def)

lemma count_newline_csv_output:
  assumes "\<forall>row\<in>set rows. newline \<notin> set (fst row)"
  shows "count_list (csv_output (spike_rows rows)) newline = length rows"
  using assms
proof (induction rows)
  case Nil
  then show ?case by (simp add: csv_output_def spike_rows_def)
next
  case (Cons row rows)
  have "count_list (csv_line [fst row, show_int (snd row)]) newline = 1"
    using Cons.prems by (intro count_newline_csv_line) simp
  moreover have "count_list (csv_output (spike_rows rows)) newline = length rows"
    using Cons by simp
  ultimately show ?case
    by (simp add: csv_output_def spike_rows_def del: csv_line.simps)
qed

lemma csv_output_quoted:
  assumes "rows \<noteq> []"
  shows "\<exists>t. csv_output (spike_rows rows) = dquote # t @ [dquote, newline]"
  using assms
proof (induction rows)
  case Nil
  then show ?case by simp
next
  case (Cons row rows)
  show ?case
  proof (cases "rows = []")
    case True
    then show ?thesis
      by (auto simp: csv_output_def spike_rows_def)
  next
    case False
    with Cons.IH obtain t where t: "csv_output (spike_rows rows) = dquote # t @ [dquote, newline]"
      by blast
    have "csv_output (spike_rows (row # rows)) =
          dquote # (fst row @ [dquote, CHR '','', dquote] @ show_int (snd row) @ [dquote, newline]
            @ dquote # t) @ [dquote, newline]"
      using t by (simp add: csv_output_def spike_rows_def)
    then show ?thesis by blast
  qed
qed

lemma spike_line_count:
  assumes "\<forall>row\<in>set rows. newline \<notin> set (fst row)"
  shows "length (py_split newline (py_strip (csv_output (spike_rows rows)))) =
           (if rows = [] then 1 else length rows)"
proof (cases "rows = []")
  case True
  then show ?thesis
    by (simp add: csv_output_def spike_rows_def py_strip_def)
next
  case False
  then obtain t where t: "csv_output (spike_rows rows) = dquote # t @ [dquote, newline]"
    using csv_output_quoted by blast
  have "count_list (dquote # t @ [dquote, newline]) newline = length rows"
    using count_newline_csv_output[OF assms] unfolding t .
  then have "Suc (count_list (dquote # t @ [dquote]) newline) = length rows"
    by (simp add: dquote_def newline_def)
  with False show ?thesis
    unfolding t py_strip_quoted length_py_split by simp
qed

text \<open>
  What the spike check tests, for SKUs without a line break: the finding is made exactly
  when the spike query returns at least two rows.
\<close>

lemma demand_spike_info:
  assumes "\<forall>x\<in>set os. newline \<notin> set (o_sku x)"
  shows "\<exists>fs. validate_data_quality ps sps os = Inr fs \<and>
           (''INFO: Abnormal demand spike detected for some SKUs'' \<in> set fs \<longleftrightarrow>
              2 \<le> length (demand_spike_query os))"
proof -
  have "\<forall>row\<in>set (demand_spike_query os). newline \<notin> set (fst row)"
    using assms by (auto simp: demand_spike_query_def orders_by_sku_def)
  from spike_line_count[OF this]
  have "length (py_split newline (py_strip (csv_output
           (map (\<lambda>row. [fst row, show_int (snd row)]) (demand_spike_query os))))) =
        (if demand_spike_query os = [] then 1 else length (demand_spike_query os))"
    unfolding spike_rows_def .
  moreover have "demand_spike_query os \<noteq> [] \<Longrightarrow> 1 \<le> length (demand_spike_query os)"
    by (cases "demand_spike_query os") simp_all
  ultimately have "length (py_split newline (py_strip (csv_output
           (map (\<lambda>row. [fst row, show_int (snd row)]) (demand_spike_query os))))) > 1 \<longleftrightarrow>
        2 \<le> length (demand_spike_query os)"
    by (simp split: if_splits) linarith
  then show ?thesis
    unfolding validate_data_quality_eq by simp
qed

text \<open>
  Claim C8. The client prints one line per row and no header, and the task asks for more
  than one line: one SKU with 1500 units ordered gives one line and no finding, while two
  SKUs above 1000 units give the finding.
\<close>

theorem single_demand_spike_not_reported:
  "spec_aggregated_orders [spike_order] ''SKU00001'' = 1500 \<and>
   demand_spike_query [spike_order] = [(''SKU00001'', 1500)] \<and>
   validate_data_quality [milk] [link 1 1 True] [spike_order] = Inr [] \<and>
   validate_data_quality [milk, tea] [link 1 1 True, link 1 2 True] [spike_order, spike_order_tea] =
     Inr [''INFO: Abnormal demand spike detected for some SKUs'']"
  by code_simp

section \<open>The order of the rows does not matter\<close>

lemma mset_concat_map:
  "mset (concat (map F xs)) = (\<Sum>x\<in>#mset xs. mset (F x))"
  by (induction xs) simp_all

lemma mset_concat_map_cong:
  assumes "mset ys = mset xs" and "\<And>x. x \<in> set xs \<Longrightarrow> mset (G x) = mset (F x)"
  shows "mset (concat (map G ys)) = mset (concat (map F xs))"
proof -
  have "(\<Sum>x\<in>#mset xs. mset (G x)) = (\<Sum>x\<in>#mset xs. mset (F x))"
    using assms(2) by (intro arg_cong[where f = sum_mset] image_mset_cong) simp
  then show ?thesis
    unfolding mset_concat_map assms(1) .
qed

lemma sum_list_filter_mset:
  "sum_list (map f (filter P xs)) = (\<Sum>x\<in>#filter_mset P (mset xs). f x)"
  by (induction xs) simp_all

lemma net_demand_entry_perm:
  assumes "mset os' = mset os" and "mset sts' = mset sts"
  shows "net_demand_entry os' sts' p r = net_demand_entry os sts p r"
  unfolding net_demand_entry_def spec_aggregated_orders_def spec_total_available_def
    spec_total_reserved_def sum_list_filter_mset assms ..

lemma net_demand_query_perm:
  assumes "mset ps' = mset ps" and "mset rs' = mset rs"
    and "mset os' = mset os" and "mset sts' = mset sts"
  shows "mset (net_demand_query ps' rs' os' sts') = mset (net_demand_query ps rs os sts)"
  unfolding net_demand_query_entries net_demand_entry_perm[OF assms(3,4)]
  using assms(1)
proof (rule mset_concat_map_cong)
  fix p
  show "mset (concat (map (\<lambda>r. if p_product_id p = r_product_id r \<and> p_is_active p
                                  then [net_demand_entry os sts p r] else []) rs')) =
        mset (concat (map (\<lambda>r. if p_product_id p = r_product_id r \<and> p_is_active p
                                  then [net_demand_entry os sts p r] else []) rs))"
    using assms(2) by (rule mset_concat_map_cong) simp
qed

lemma linked_suppliers_perm:
  assumes "mset sps' = mset sps" and "mset ss' = mset ss"
  shows "mset (linked_suppliers pid sps' ss') = mset (linked_suppliers pid sps ss)"
  unfolding linked_suppliers_def using assms(1)
proof (rule mset_concat_map_cong)
  fix sp
  show "mset (if pid = sp_product_id sp
              then concat (map (\<lambda>s. if sp_supplier_id sp = s_supplier_id s
                                     then if sp_is_primary_supplier sp then [s] else [] else []) ss')
              else []) =
        mset (if pid = sp_product_id sp
              then concat (map (\<lambda>s. if sp_supplier_id sp = s_supplier_id s
                                     then if sp_is_primary_supplier sp then [s] else [] else []) ss)
              else [])"
    by (simp add: suppliers_with_id_filter assms(2))
qed

lemma primary_suppliers_perm:
  assumes "mset ps' = mset ps" and "mset sps' = mset sps" and "mset ss' = mset ss"
  shows "mset (primary_suppliers k ps' sps' ss') = mset (primary_suppliers k ps sps ss)"
  unfolding primary_suppliers_linked using assms(1)
  by (rule mset_concat_map_cong) (simp add: linked_suppliers_perm[OF assms(2,3)])

lemma supplier_order_joins_perm:
  assumes "mset nd' = mset nd" and "mset ps' = mset ps"
    and "mset sps' = mset sps" and "mset ss' = mset ss"
  shows "mset (supplier_order_joins nd' ps' sps' ss') = mset (supplier_order_joins nd ps sps ss)"
  unfolding supplier_order_joins_alt using assms(1)
  by (rule mset_concat_map_cong) (simp add: primary_suppliers_perm[OF assms(2,3,4)])

lemma inj_on_line_keys:
  assumes "inj_on nd_sku (set nd)" and "inj_on s_supplier_code (set ss)"
  shows "inj_on (\<lambda>l. (so_supplier_code l, so_sku l))
           (joined_line ` set (supplier_order_joins nd ps sps ss))"
proof (rule inj_onI)
  fix l l'
  assume l: "l \<in> joined_line ` set (supplier_order_joins nd ps sps ss)"
    and l': "l' \<in> joined_line ` set (supplier_order_joins nd ps sps ss)"
    and eq: "(so_supplier_code l, so_sku l) = (so_supplier_code l', so_sku l')"
  from l obtain s n where sn: "(s, n) \<in> set (supplier_order_joins nd ps sps ss)"
    "l = joined_line (s, n)" by auto
  from l' obtain s' n' where sn': "(s', n') \<in> set (supplier_order_joins nd ps sps ss)"
    "l' = joined_line (s', n')" by auto
  from sn(1) sn'(1) have mem: "s \<in> set ss" "s' \<in> set ss" "n \<in> set nd" "n' \<in> set nd"
    by (simp_all add: in_supplier_order_joins)
  from eq have "s_supplier_code s = s_supplier_code s'" "nd_sku n = nd_sku n'"
    unfolding sn(2) sn'(2) by (simp_all add: joined_line_def supplier_order_line_def)
  with assms mem have "s = s'" "n = n'"
    by (auto dest: inj_onD)
  then show "l = l'" unfolding sn(2) sn'(2) by simp
qed

lemma generate_supplier_orders_perm:
  assumes "mset nd' = mset nd" and "mset ps' = mset ps"
    and "mset sps' = mset sps" and "mset ss' = mset ss"
    and "inj_on nd_sku (set nd)" and "inj_on s_supplier_code (set ss)"
  shows "generate_supplier_orders nd' ps' sps' ss' = generate_supplier_orders nd ps sps ss"
proof -
  let ?key = "\<lambda>l. (so_supplier_code l, so_sku l)"
  let ?joins = "supplier_order_joins nd ps sps ss"
  let ?joins' = "supplier_order_joins nd' ps' sps' ss'"
  have m: "mset ?joins' = mset ?joins"
    using assms(1-4) by (rule supplier_order_joins_perm)
  then have st: "set ?joins' = set ?joins" by (rule mset_eq_setD)
  have "sort_key ?key (map joined_line ?joins') = sort_key ?key (map joined_line ?joins)"
  proof (rule sort_key_inj_key_eq)
    show "mset (map joined_line ?joins') = mset (sort_key ?key (map joined_line ?joins))"
      by (simp add: m)
    show "inj_on ?key (set (map joined_line ?joins'))"
      unfolding set_map st using assms(5,6) by (rule inj_on_line_keys)
    show "sorted (map ?key (sort_key ?key (map joined_line ?joins)))"
      by (rule sorted_sort_key)
  qed
  then show ?thesis
    unfolding generate_supplier_orders_eq st by simp
qed

lemma inj_on_net_demand_skus:
  assumes "inj_on p_sku (set ps)" and "inj_on r_product_id (set rs)"
  shows "inj_on nd_sku (set (net_demand_query ps rs os sts))"
proof (rule inj_onI)
  fix e e'
  assume e: "e \<in> set (net_demand_query ps rs os sts)"
    and e': "e' \<in> set (net_demand_query ps rs os sts)" and eq: "nd_sku e = nd_sku e'"
  from e obtain p r where pr: "p \<in> set ps" "r \<in> set rs" "p_product_id p = r_product_id r"
    "e = net_demand_entry os sts p r"
    unfolding net_demand_query_entries by (auto split: if_splits)
  from e' obtain p' r' where pr': "p' \<in> set ps" "r' \<in> set rs" "p_product_id p' = r_product_id r'"
    "e' = net_demand_entry os sts p' r'"
    unfolding net_demand_query_entries by (auto split: if_splits)
  from eq have "p_sku p = p_sku p'"
    unfolding pr(4) pr'(4) by (simp add: net_demand_entry_def)
  with assms(1) pr(1) pr'(1) have p: "p = p'" by (auto dest: inj_onD)
  with pr(3) pr'(3) have "r_product_id r = r_product_id r'" by simp
  with assms(2) pr(2) pr'(2) have "r = r'" by (auto dest: inj_onD)
  with p show "e = e'" unfolding pr(4) pr'(4) by simp
qed

text \<open>
  Claim C9. A function of the model gives equal results on equal arguments; what a second
  run can change is the order in which the engine reads the rows of a table. With SKUs
  unique among the products, one rule row per product id and supplier codes unique, two
  runs over the same rows in any order give the same net-demand entries and the same
  supplier-order output, equal as lists: the same lines in the same order, or the same
  failure.
\<close>

theorem derivation_deterministic:
  assumes "mset ps' = mset ps" and "mset rs' = mset rs"
    and "mset os' = mset os" and "mset sts' = mset sts"
    and "mset sps' = mset sps" and "mset ss' = mset ss"
    and "inj_on p_sku (set ps)" and "inj_on r_product_id (set rs)"
    and "inj_on s_supplier_code (set ss)"
  shows "\<exists>nd nd'. calculate_net_demand ps rs os sts = Inr nd \<and>
           calculate_net_demand ps' rs' os' sts' = Inr nd' \<and>
           mset nd' = mset nd \<and>
           generate_supplier_orders nd' ps' sps' ss' = generate_supplier_orders nd ps sps ss"
proof -
  let ?nd = "net_demand_query ps rs os sts"
  let ?nd' = "net_demand_query ps' rs' os' sts'"
  have m: "mset ?nd' = mset ?nd"
    using assms(1-4) by (rule net_demand_query_perm)
  have "inj_on nd_sku (set ?nd)"
    using assms(7,8) by (rule inj_on_net_demand_skus)
  with m assms(1,5,6) have "generate_supplier_orders ?nd' ps' sps' ss' =
      generate_supplier_orders ?nd ps sps ss"
    using assms(9) by (intro generate_supplier_orders_perm)
  with m show ?thesis
    unfolding calculate_net_demand_eq by blast
qed

theorem derivation_deterministic_witness:
  "\<exists>nd nd'.
     calculate_net_demand [milk, tea] [milk_rule, tea_rule] [milk_order, tea_order] [milk_stock] = Inr nd \<and>
     calculate_net_demand [tea, milk] [tea_rule, milk_rule] [tea_order, milk_order] [milk_stock] = Inr nd' \<and>
     mset nd' = mset nd \<and>
     generate_supplier_orders nd' [tea, milk] [link 2 2 True, link 1 1 True] [bolt, acme] =
       generate_supplier_orders nd [milk, tea] [link 1 1 True, link 2 2 True] [acme, bolt]"
proof -
  have perms: "mset [tea, milk] = mset [milk, tea]" "mset [tea_rule, milk_rule] = mset [milk_rule, tea_rule]"
    "mset [tea_order, milk_order] = mset [milk_order, tea_order]" "mset [milk_stock] = mset [milk_stock]"
    "mset [link 2 2 True, link 1 1 True] = mset [link 1 1 True, link 2 2 True]"
    "mset [bolt, acme] = mset [acme, bolt]"
    by (simp_all add: add_mset_commute)
  have keys: "inj_on p_sku (set [milk, tea])" "inj_on r_product_id (set [milk_rule, tea_rule])"
    "inj_on s_supplier_code (set [acme, bolt])"
    by (simp_all add: example_defs)
  from derivation_deterministic[OF perms keys] show ?thesis .
qed


end
